theory Spec2Isabelle
  imports Main "HOL-Library.Stream"
begin

section \<open>JavaScript strings\<close>

text \<open>
  Page texts, addresses and messages are \<open>string\<close>s. The classification of characters
  (white space, letters, digits) is the one JavaScript applies to ASCII text; a character
  outside ASCII is kept as its UTF-8 bytes and belongs to no class. The two non-ASCII
  characters of the source's message literals are written out as bytes.
\<close>

definition emdash :: string where
  "emdash = [CHR 0xE2, CHR 0x80, CHR 0x94]"

definition ellipsis :: string where
  "ellipsis = [CHR 0xE2, CHR 0x80, CHR 0xA6]"

definition upperChars :: string where
  "upperChars = ''ABCDEFGHIJKLMNOPQRSTUVWXYZ''"

definition lowerChars :: string where
  "lowerChars = ''abcdefghijklmnopqrstuvwxyz''"

definition digitChars :: string where
  "digitChars = ''0123456789''"

definition isSpace :: "char \<Rightarrow> bool" where
  "isSpace c = (c \<in> set [CHR '' '', CHR 0x09, CHR 0x0A, CHR 0x0B, CHR 0x0C, CHR 0x0D])"

definition isAlpha :: "char \<Rightarrow> bool" where
  "isAlpha c = (c \<in> set (upperChars @ lowerChars))"

definition isDigit :: "char \<Rightarrow> bool" where
  "isDigit c = (c \<in> set digitChars)"

text \<open>The class \<open>\w\<close> of a regular expression.\<close>

definition isWordChar :: "char \<Rightarrow> bool" where
  "isWordChar c = (isAlpha c \<or> isDigit c \<or> c = CHR ''_'')"

definition toLowerChar :: "char \<Rightarrow> char" where
  "toLowerChar c = (case map_of (zip upperChars lowerChars) c of Some l \<Rightarrow> l | None \<Rightarrow> c)"

definition toLowerCase :: "string \<Rightarrow> string" where
  "toLowerCase s = map toLowerChar s"

definition trim :: "string \<Rightarrow> string" where
  "trim s = rev (dropWhile isSpace (rev (dropWhile isSpace s)))"

fun startsWith :: "'a list \<Rightarrow> 'a list \<Rightarrow> bool" where
  "startsWith s [] = True"
| "startsWith [] (p # ps) = False"
| "startsWith (c # cs) (p # ps) = (c = p \<and> startsWith cs ps)"

text \<open>\<open>s.includes(sub)\<close>: \<open>sub\<close> occurs in \<open>s\<close> at some position.\<close>

fun includesSub :: "'a list \<Rightarrow> 'a list \<Rightarrow> bool" where
  "includesSub [] sub = (sub = [])"
| "includesSub (c # cs) sub = (startsWith (c # cs) sub \<or> includesSub cs sub)"

text \<open>\<open>xs.join(sep)\<close> on an array of strings.\<close>

fun join :: "string \<Rightarrow> string list \<Rightarrow> string" where
  "join sep [] = []"
| "join sep [x] = x"
| "join sep (x # y # ys) = x @ sep @ join sep (y # ys)"

text \<open>A number inside a template literal: its decimal digits, with a sign when negative.\<close>

fun showNat :: "nat \<Rightarrow> string" where
  "showNat n = (if n < 10 then [digitChars ! n] else showNat (n div 10) @ [digitChars ! (n mod 10)])"

declare showNat.simps [simp del]

definition showInt :: "int \<Rightarrow> string" where
  "showInt i = (if i < 0 then ''-'' @ showNat (nat (- i)) else showNat (nat i))"

text \<open>Two digits, as the hours, minutes and seconds of \<open>toTimeString\<close> are printed.\<close>

definition twoDigits :: "nat \<Rightarrow> string" where
  "twoDigits n = [digitChars ! ((n div 10) mod 10), digitChars ! (n mod 10)]"

section \<open>Messages between the contexts\<close>

text \<open>
  A \<open>BookingRecord\<close> is \<open>{date, desk}\<close>. A message is the object passed to
  \<open>chrome.runtime.sendMessage\<close> or \<open>chrome.tabs.sendMessage\<close>, by its \<open>type\<close>. A text field
  that the receiver reads through \<open>||\<close> is a string, and the empty string stands for the
  absent field as well (both are falsy); \<open>selectedDays\<close> is optional, and an empty array
  is a value of its own (it is truthy).
\<close>

record BookingRecord =
  date :: string
  desk :: string

datatype message =
    START_BOOKING "int list option"
  | LOG string string
  | BOOKING_PROGRESS int int
  | BOOKING_DONE int "BookingRecord list"
  | BOOKING_NONE string
  | BOOKING_ERROR string
  | GET_STATE

text \<open>
  The shared run state, as \<open>defaultState()\<close> shapes it, and the value a listener passes to
  \<open>sendResponse\<close>.
\<close>

datatype status = Idle | Running | Done | Error

record LogEntry =
  time :: string
  level :: string
  msg :: string

record RunState =
  status :: status
  current :: int
  total :: int
  log :: "LogEntry list"
  bookings :: "BookingRecord list"

datatype response = Received | Ok | State RunState

section \<open>The page agent (content.js)\<close>

subsection \<open>Sending, and the failures of sending\<close>

text \<open>
  The content script acts on its surroundings only by sending messages, and a send may be
  rejected (the service worker has cycled, the extension context is gone). The environment
  says, for the n-th send of a run, whether it is rejected and with which message; it also
  holds the one function of the JavaScript engine the script relies on and the repository
  does not define: \<open>new Date(s).getDay()\<close>, with \<open>None\<close> for an invalid date.

  A computation of the script takes the trace of the sends attempted so far (each with
  whether it was delivered) and returns the trace extended, with either its result or the
  message of the exception it threw.
\<close>

record agentEnv =
  sendOutcome :: "nat \<Rightarrow> string option"
  dateGetDay :: "string \<Rightarrow> int option"

type_synonym trace = "(message \<times> bool) list"

type_synonym 'a agent = "trace \<Rightarrow> (string + 'a) \<times> trace"

definition ret :: "'a \<Rightarrow> 'a agent" where
  "ret x = (\<lambda>tr. (Inr x, tr))"

definition bnd :: "'a agent \<Rightarrow> ('a \<Rightarrow> 'b agent) \<Rightarrow> 'b agent" where
  "bnd a f = (\<lambda>tr. case a tr of (Inl e, tr') \<Rightarrow> (Inl e, tr') | (Inr x, tr') \<Rightarrow> f x tr')"

text \<open>\<open>try { await a } catch { }\<close>: the exception is swallowed.\<close>

definition attempt :: "unit agent \<Rightarrow> unit agent" where
  "attempt a = (\<lambda>tr. case a tr of (Inl e, tr') \<Rightarrow> (Inr (), tr') | (Inr x, tr') \<Rightarrow> (Inr (), tr'))"

definition sendMessage :: "agentEnv \<Rightarrow> message \<Rightarrow> unit agent" where
  "sendMessage env m = (\<lambda>tr. case sendOutcome env (length tr) of
       None \<Rightarrow> (Inr (), tr @ [(m, True)])
     | Some e \<Rightarrow> (Inl e, tr @ [(m, False)]))"

text \<open>\<open>log(level, msg)\<close> of content.js.\<close>

definition logC :: "agentEnv \<Rightarrow> string \<Rightarrow> string \<Rightarrow> unit agent" where
  "logC env lvl text = attempt (sendMessage env (LOG lvl text))"

text \<open>
  \<open>waitFor(predicate, timeout, interval)\<close>: the page is read once per poll until the
  deadline, so the polls before the deadline are a finite list of readings; the first
  reading on which the predicate gives a value is the result, and \<open>null\<close> when none does.
\<close>

fun waitFor :: "('s \<Rightarrow> 'r option) \<Rightarrow> 's list \<Rightarrow> 'r option" where
  "waitFor predicate [] = None"
| "waitFor predicate (s # ss) =
     (case predicate s of Some r \<Rightarrow> Some r | None \<Rightarrow> waitFor predicate ss)"

subsection \<open>The page\<close>

text \<open>
  A button of a confirmation dialog, and a button of the page. The script reads a page
  button at three moments, and the record holds each reading: at discovery (\<open>disabled\<close>,
  \<open>textContent\<close>, the text of its container, \<open>None\<close> when \<open>getButtonContainer\<close> finds
  none), when its turn to be clicked comes (\<open>disabledAtClick\<close>, \<open>attachedAtClick\<close> for
  \<open>document.contains\<close>), and after the click (the dialog seen at each poll, the text of the
  container once the page has updated).
\<close>

record mbutton =
  mtext :: string
  mdisabled :: bool

record button =
  disabled :: bool
  textContent :: string
  container :: "string option"
  disabledAtClick :: bool
  attachedAtClick :: bool
  modalPolls :: "mbutton list option list"
  containerAfter :: "string option"

record page =
  href :: string
  polls :: "button list list"

subsection \<open>Button detection\<close>

definition BUTTON_LABELS :: "string list" where
  "BUTTON_LABELS = [''schedule'', ''schedule desk'', ''book desk'', ''book'', ''reserve'']"

definition isScheduleButton :: "button \<Rightarrow> bool" where
  "isScheduleButton btn =
     (if disabled btn then False
      else let text = toLowerCase (trim (textContent btn))
           in list_ex (\<lambda>label. text = label) BUTTON_LABELS)"

definition findScheduleButtons :: "button list \<Rightarrow> button list" where
  "findScheduleButtons document = filter isScheduleButton document"

text \<open>The arrow function that \<open>waitForScheduleButtons\<close> passes to \<open>waitFor\<close>.\<close>

definition scanPredicate :: "button list \<Rightarrow> button list option" where
  "scanPredicate document =
     (let btns = findScheduleButtons document in if length btns > 0 then Some btns else None)"

definition waitForScheduleButtons :: "agentEnv \<Rightarrow> button list list \<Rightarrow> button list option agent" where
  "waitForScheduleButtons env ps =
     bnd (logC env ''info'' (''Scanning page for Schedule buttons (timeout 15s)'' @ ellipsis))
       (\<lambda>_. ret (waitFor scanPredicate ps))"

subsection \<open>Modal handling\<close>

definition CONFIRM_KEYWORDS :: "string list" where
  "CONFIRM_KEYWORDS = [''confirm'', ''book'', ''schedule'', ''reserve'', ''yes'', ''submit'', ''ok'']"

text \<open>The callback of \<open>buttons.find\<close>, the button found, and the button to click.\<close>

definition isConfirm :: "mbutton \<Rightarrow> bool" where
  "isConfirm btn =
     (let text = toLowerCase (trim (mtext btn))
      in list_ex (\<lambda>kw. includesSub text kw) CONFIRM_KEYWORDS)"

definition confirmBtn :: "mbutton list \<Rightarrow> mbutton option" where
  "confirmBtn buttons = find isConfirm buttons"

definition toClick :: "mbutton list \<Rightarrow> mbutton option" where
  "toClick buttons =
     (case confirmBtn buttons of
        Some b \<Rightarrow> Some b
      | None \<Rightarrow> (case buttons of [b] \<Rightarrow> Some b | _ \<Rightarrow> None))"

definition handleConfirmationModal :: "agentEnv \<Rightarrow> mbutton list option list \<Rightarrow> bool agent" where
  "handleConfirmationModal env ps =
     (case waitFor (\<lambda>dialog. dialog) ps of
        None \<Rightarrow>
          bnd (logC env ''info'' (''No confirmation modal detected '' @ emdash @ '' continuing.''))
            (\<lambda>_. ret False)
      | Some buttons \<Rightarrow>
          bnd (logC env ''info'' ''Confirmation modal detected.'') (\<lambda>_.
          bnd (logC env ''info'' (''Modal buttons: ['' @
                 join '', '' (map (\<lambda>b. ''\"'' @ trim (mtext b) @ ''\"'') buttons) @ '']'')) (\<lambda>_.
          (case toClick buttons of
             Some b \<Rightarrow>
               if \<not> mdisabled b then
                 bnd (logC env ''info'' (''Clicking modal button: \"'' @ trim (mtext b) @ ''\"''))
                   (\<lambda>_. ret True)
               else
                 bnd (logC env ''warn'' (''Could not find a confirm button in the modal '' @ emdash @
                        '' skipping modal.'')) (\<lambda>_. ret False)
           | None \<Rightarrow>
               bnd (logC env ''warn'' (''Could not find a confirm button in the modal '' @ emdash @
                      '' skipping modal.'')) (\<lambda>_. ret False)))))"

subsection \<open>Day-of-week helpers\<close>

definition dayNames3 :: "string list" where
  "dayNames3 = [''mon'', ''tue'', ''wed'', ''thu'', ''fri'', ''sat'', ''sun'']"

definition monthNames3 :: "string list" where
  "monthNames3 = [''jan'', ''feb'', ''mar'', ''apr'', ''may'', ''jun'',
                  ''jul'', ''aug'', ''sep'', ''oct'', ''nov'', ''dec'']"

definition dayMap :: "string \<Rightarrow> int option" where
  "dayMap = map_of [(''sun'', 0), (''mon'', 1), (''tue'', 2), (''wed'', 3),
                    (''thu'', 4), (''fri'', 5), (''sat'', 6)]"

text \<open>
  The regular expression \<open>/\b(Mon|Tue|Wed|Thu|Fri|Sat|Sun)[a-z]*/i\<close>. A match starts where
  the text continues with one of the seven abbreviations, in any case, and the character
  before is no word character (the abbreviation starts with one, so that is the boundary
  \<open>\b\<close>). The script reads only the first three characters of the leftmost match, in
  lower case: \<open>dayAbbr[0].slice(0, 3).toLowerCase()\<close>.
\<close>

definition dayAbbrAt :: "string \<Rightarrow> string option" where
  "dayAbbrAt s =
     (let h = toLowerCase (take 3 s) in if h \<in> set dayNames3 then Some h else None)"

fun matchDayAbbr :: "bool \<Rightarrow> string \<Rightarrow> string option" where
  "matchDayAbbr prevWord [] = None"
| "matchDayAbbr prevWord (c # cs) =
     (if \<not> prevWord \<and> dayAbbrAt (c # cs) \<noteq> None then dayAbbrAt (c # cs)
      else matchDayAbbr (isWordChar c) cs)"

text \<open>
  \<open>/\b(?:Jan|...|Dec)[a-z]*\s+\d{1,2}\b/i\<close>: a month abbreviation at a word boundary, the
  letters that follow it, white space (at least one character), and one or two digits
  that end at a word boundary. Letters, white space and digits are disjoint classes, so
  each greedy repetition takes all of its run; a run of three or more digits matches
  neither as two digits nor as one. The result is the text matched.
\<close>

definition monthDayAt :: "string \<Rightarrow> string option" where
  "monthDayAt s =
     (if toLowerCase (take 3 s) \<in> set monthNames3 then
        (let r1 = drop 3 s;
             letters = takeWhile isAlpha r1; r2 = dropWhile isAlpha r1;
             spaces = takeWhile isSpace r2; r3 = dropWhile isSpace r2;
             digits = takeWhile isDigit r3; r4 = dropWhile isDigit r3
         in if spaces \<noteq> [] \<and> (length digits = 1 \<or> length digits = 2) \<and>
               (case r4 of [] \<Rightarrow> True | c # _ \<Rightarrow> \<not> isWordChar c)
            then Some (take 3 s @ letters @ spaces @ digits) else None)
      else None)"

fun matchMonthDay :: "bool \<Rightarrow> string \<Rightarrow> string option" where
  "matchMonthDay prevWord [] = None"
| "matchMonthDay prevWord (c # cs) =
     (if \<not> prevWord \<and> monthDayAt (c # cs) \<noteq> None then monthDayAt (c # cs)
      else matchMonthDay (isWordChar c) cs)"

text \<open>
  \<open>/\d{1,2}[\/\-]\d{1,2}/\<close>: one or two digits, a slash or a hyphen, one or two digits.
  With a second digit the separator must follow it; without one the separator follows the
  first digit; the digits after the separator are taken greedily.
\<close>

definition isDateSep :: "char \<Rightarrow> bool" where
  "isDateSep c = (c = CHR ''/'' \<or> c = CHR ''-'')"

definition sepDigitsAt :: "string \<Rightarrow> string option" where
  "sepDigitsAt r =
     (case r of
        sep # d # r' \<Rightarrow>
          if isDateSep sep \<and> isDigit d then
            Some (sep # d # (case r' of [] \<Rightarrow> [] | e # _ \<Rightarrow> if isDigit e then [e] else []))
          else None
      | _ \<Rightarrow> None)"

definition numDateAt :: "string \<Rightarrow> string option" where
  "numDateAt s =
     (case s of
        [] \<Rightarrow> None
      | d1 # r \<Rightarrow>
          if \<not> isDigit d1 then None
          else (case r of
                  [] \<Rightarrow> None
                | d2 # r2 \<Rightarrow>
                    if isDigit d2 then map_option (\<lambda>t. d1 # d2 # t) (sepDigitsAt r2)
                    else map_option (\<lambda>t. d1 # t) (sepDigitsAt r)))"

fun matchNumDate :: "string \<Rightarrow> string option" where
  "matchNumDate [] = None"
| "matchNumDate (c # cs) =
     (if numDateAt (c # cs) \<noteq> None then numDateAt (c # cs) else matchNumDate cs)"

text \<open>
  \<open>getButtonDayOfWeek(btn)\<close>. The container is the button's reading \<open>container\<close>; the
  lookup in \<open>dayMap\<close> and the \<open>isNaN\<close> test both end in \<open>null\<close>, here \<open>None\<close>.
\<close>

definition getButtonDayOfWeek :: "agentEnv \<Rightarrow> button \<Rightarrow> int option" where
  "getButtonDayOfWeek env btn =
     (case container btn of
        None \<Rightarrow> None
      | Some text \<Rightarrow>
          (case matchDayAbbr False text of
             Some dayAbbr \<Rightarrow> dayMap dayAbbr
           | None \<Rightarrow>
               (case (case matchMonthDay False text of
                        Some m \<Rightarrow> Some m
                      | None \<Rightarrow> matchNumDate text) of
                  Some dateStr \<Rightarrow> dateGetDay env dateStr
                | None \<Rightarrow> None)))"

text \<open>
  \<open>text.replace(/\s+/g, ' ')\<close>: every run of white space becomes one blank. The flag says
  that the character before belonged to a run already replaced.
\<close>

fun collapseSpaces :: "bool \<Rightarrow> string \<Rightarrow> string" where
  "collapseSpaces inRun [] = []"
| "collapseSpaces inRun (c # cs) =
     (if isSpace c then
        (if inRun then collapseSpaces True cs else CHR '' '' # collapseSpaces True cs)
      else c # collapseSpaces False cs)"

text \<open>
  \<open>text.replace(/schedule desk|book desk|schedule|book|reserve/gi, '')\<close>: at each position
  the alternatives are tried in their order; the first that matches, in any case, is
  left out, and the scan goes on after it. The counter is the number of characters of a
  match still to leave out.
\<close>

definition ACTION_WORDS :: "string list" where
  "ACTION_WORDS = [''schedule desk'', ''book desk'', ''schedule'', ''book'', ''reserve'']"

definition actionWordAt :: "string \<Rightarrow> string option" where
  "actionWordAt s = find (\<lambda>w. startsWith (toLowerCase s) w) ACTION_WORDS"

fun stripActionWords :: "nat \<Rightarrow> string \<Rightarrow> string" where
  "stripActionWords k [] = []"
| "stripActionWords (Suc k) (c # cs) = stripActionWords k cs"
| "stripActionWords 0 (c # cs) =
     (case actionWordAt (c # cs) of
        Some w \<Rightarrow> stripActionWords (length w - 1) cs
      | None \<Rightarrow> c # stripActionWords 0 cs)"

definition getButtonDateLabel :: "button \<Rightarrow> string" where
  "getButtonDateLabel btn =
     (let text = (case container btn of
                    None \<Rightarrow> []
                  | Some t \<Rightarrow> trim (collapseSpaces False t))
      in take 40 (trim (stripActionWords 0 text)))"

text \<open>
  \<open>captureAssignedDesk(container)\<close>, on the container's text after the click:
  \<open>/(?:desk|table|seat|spot|space)\s*[\w\d#\-]+/i\<close>, the leftmost match trimmed, or the
  literal \<open>Booked\<close>.
\<close>

definition DESK_WORDS :: "string list" where
  "DESK_WORDS = [''desk'', ''table'', ''seat'', ''spot'', ''space'']"

definition isDeskTokenChar :: "char \<Rightarrow> bool" where
  "isDeskTokenChar c = (isWordChar c \<or> c = CHR ''#'' \<or> c = CHR ''-'')"

definition deskAt :: "string \<Rightarrow> string option" where
  "deskAt s =
     (case find (\<lambda>w. startsWith (toLowerCase s) w) DESK_WORDS of
        None \<Rightarrow> None
      | Some w \<Rightarrow>
          (let r1 = drop (length w) s;
               spaces = takeWhile isSpace r1; r2 = dropWhile isSpace r1;
               token = takeWhile isDeskTokenChar r2
           in if token \<noteq> [] then Some (take (length w) s @ spaces @ token) else None))"

fun matchDesk :: "string \<Rightarrow> string option" where
  "matchDesk [] = None"
| "matchDesk (c # cs) = (if deskAt (c # cs) \<noteq> None then deskAt (c # cs) else matchDesk cs)"

definition captureAssignedDesk :: "string option \<Rightarrow> string" where
  "captureAssignedDesk cont =
     (let text = (case cont of None \<Rightarrow> [] | Some t \<Rightarrow> t)
      in case matchDesk text of Some m \<Rightarrow> trim m | None \<Rightarrow> ''Booked'')"

subsection \<open>Main booking routine\<close>

definition DAY_NAMES :: "string list" where
  "DAY_NAMES = [''Sun'', ''Mon'', ''Tue'', ''Wed'', ''Thu'', ''Fri'', ''Sat'']"

text \<open>\<open>DAY_NAMES[day]\<close> inside a template literal; outside the array it prints \<open>undefined\<close>.\<close>

definition dayName :: "int \<Rightarrow> string" where
  "dayName d = (if 0 \<le> d \<and> d < 7 then DAY_NAMES ! nat d else ''undefined'')"

text \<open>
  The callback of \<open>buttons.filter((btn, i) => ...)\<close>. Its \<open>log\<close> is not awaited, but the
  send is issued at once, so it takes its place in the trace.
\<close>

definition dayFilter :: "agentEnv \<Rightarrow> int list \<Rightarrow> button \<Rightarrow> nat \<Rightarrow> bool agent" where
  "dayFilter env selectedDays btn i =
     (if length selectedDays = 0 then ret True
      else (case getButtonDayOfWeek env btn of
              None \<Rightarrow> ret True
            | Some day \<Rightarrow>
                if day \<notin> set selectedDays then
                  bnd (logC env ''info'' (''Skipping button '' @ showNat (i + 1) @ '' '' @ emdash @
                         '' day '' @ dayName day @ '' not in selected days''))
                    (\<lambda>_. ret False)
                else ret True))"

text \<open>\<open>Array.prototype.filter\<close> with a callback that acts: elements in order, with their index.\<close>

fun filterA :: "('a \<Rightarrow> nat \<Rightarrow> bool agent) \<Rightarrow> 'a list \<Rightarrow> nat \<Rightarrow> 'a list agent" where
  "filterA f [] i = ret []"
| "filterA f (x # xs) i =
     bnd (f x i) (\<lambda>keep.
     bnd (filterA f xs (Suc i)) (\<lambda>rest.
     ret (if keep then x # rest else rest)))"

definition filteredButtons :: "agentEnv \<Rightarrow> int list \<Rightarrow> button list \<Rightarrow> button list agent" where
  "filteredButtons env selectedDays buttons = filterA (dayFilter env selectedDays) buttons 0"

text \<open>
  The click loop \<open>for (let i = 0; i < filteredButtons.length; i++)\<close>: \<open>n\<close> is
  \<open>filteredButtons.length\<close>, the list holds the buttons from index \<open>i\<close> on, \<open>booked\<close> and
  \<open>bookings\<close> are the loop's two variables. The pauses and the scrolling leave no trace.
\<close>

fun clickLoop ::
  "agentEnv \<Rightarrow> nat \<Rightarrow> nat \<Rightarrow> button list \<Rightarrow> nat \<Rightarrow> BookingRecord list \<Rightarrow>
     (nat \<times> BookingRecord list) agent" where
  "clickLoop env n i [] booked bks = ret (booked, bks)"
| "clickLoop env n i (btn # rest) booked bks =
     (if disabledAtClick btn \<or> \<not> attachedAtClick btn then
        bnd (logC env ''warn'' (''Button '' @ showNat (i + 1) @ '' is no longer available '' @
               emdash @ '' skipping.''))
          (\<lambda>_. clickLoop env n (Suc i) rest booked bks)
      else
        (let dateLabel = getButtonDateLabel btn;
             label = (if dateLabel \<noteq> [] then '' (\"'' @ dateLabel @ ''\")'' else [])
         in bnd (logC env ''info'' (''Clicking button '' @ showNat (i + 1) @ ''/'' @ showNat n @ label)) (\<lambda>_.
            bnd (attempt (sendMessage env (BOOKING_PROGRESS (int (Suc booked)) (int n)))) (\<lambda>_.
            bnd (handleConfirmationModal env (modalPolls btn)) (\<lambda>_.
            clickLoop env n (Suc i) rest (Suc booked)
              (bks @ [\<lparr>date = (if dateLabel \<noteq> [] then dateLabel
                                else ''Booking '' @ showNat (Suc booked)),
                       desk = captureAssignedDesk (containerAfter btn)\<rparr>]))))))"

definition runBulkBooking :: "agentEnv \<Rightarrow> page \<Rightarrow> int list \<Rightarrow> unit agent" where
  "runBulkBooking env pg selectedDays =
     bnd (logC env ''info'' (''Content script active on: '' @ href pg)) (\<lambda>_.
     bnd (if \<not> includesSub (href pg) ''/schedule''
          then logC env ''warn'' (''Not on /schedule '' @ emdash @ '' navigating'' @ ellipsis)
          else ret ()) (\<lambda>_.
     bnd (waitForScheduleButtons env (polls pg)) (\<lambda>found.
     (case found of
        None \<Rightarrow>
          bnd (logC env ''warn'' (''No Schedule buttons found after waiting. The page may require '' @
                 ''login or the desks may already be booked.'')) (\<lambda>_.
          sendMessage env (BOOKING_NONE (''No Schedule buttons found. Ensure you'' @ [CHR 0x27] @
                 ''re logged in and desks are available.'')))
      | Some buttons \<Rightarrow>
          bnd (logC env ''info'' (''Found '' @ showNat (length buttons) @
                 '' Schedule button(s). Filtering by selected days: ['' @
                 join '','' (map showInt selectedDays) @ '']'')) (\<lambda>_.
          bnd (filteredButtons env selectedDays buttons) (\<lambda>fb.
          if length fb = 0 then
            bnd (logC env ''warn'' ''No buttons remain after day-of-week filter.'') (\<lambda>_.
            sendMessage env (BOOKING_NONE ''No Schedule buttons matched the selected days.''))
          else
            bnd (logC env ''info'' (showNat (length fb) @ '' button(s) after day filter.'')) (\<lambda>_.
            bnd (clickLoop env (length fb) 0 fb 0 []) (\<lambda>r.
            bnd (logC env ''success'' (''All done '' @ emdash @ '' '' @ showNat (fst r) @
                   '' desk(s) scheduled.'')) (\<lambda>_.
            attempt (sendMessage env (BOOKING_DONE (int (fst r)) (snd r))))))))))))"

subsection \<open>Message listener\<close>

text \<open>
  The listener of content.js on one message. \<open>START_BOOKING\<close> is acknowledged and the routine
  runs, with the handler of \<open>.catch\<close> behind it; any other message is ignored. The result
  is the response given, or the message of an exception that nothing caught.
\<close>

definition onCatch :: "agentEnv \<Rightarrow> string \<Rightarrow> unit agent" where
  "onCatch env err =
     bnd (logC env ''error'' (''Unhandled error: '' @ err)) (\<lambda>_.
     attempt (sendMessage env (BOOKING_ERROR (''Unhandled error: '' @ err))))"

definition contentListener :: "agentEnv \<Rightarrow> page \<Rightarrow> message \<Rightarrow> response option agent" where
  "contentListener env pg m =
     (case m of
        START_BOOKING sel \<Rightarrow>
          (\<lambda>tr. case runBulkBooking env pg
                        (case sel of None \<Rightarrow> [1, 2, 3, 4, 5] | Some days \<Rightarrow> days) tr of
                   (Inl err, tr') \<Rightarrow> bnd (onCatch env err) (\<lambda>_. ret (Some Received)) tr'
                 | (Inr u, tr') \<Rightarrow> (Inr (Some Received), tr'))
      | _ \<Rightarrow> ret None)"

section \<open>The orchestrator (background service worker)\<close>

subsection \<open>Dates\<close>

text \<open>
  A reading of \<open>new Date()\<close>: the instant in milliseconds since the epoch, and the offset
  of local time from UTC at that instant, in minutes east. \<open>getHours\<close> and \<open>toTimeString\<close>
  are local; \<open>toISOString\<close> is UTC. The first ten characters of \<open>toISOString()\<close> name the
  UTC calendar day, and the model keeps the index of that day since the epoch in the place
  of the text \<open>YYYY-MM-DD\<close> (the two determine each other). \<open>localDate\<close> is the index of the
  local calendar day; the source never computes it, the statements about it do.
\<close>

record jsdate =
  epochMs :: int
  tzMinutes :: int

definition localMs :: "jsdate \<Rightarrow> int" where
  "localMs d = epochMs d + tzMinutes d * 60000"

definition getHours :: "jsdate \<Rightarrow> int" where
  "getHours d = (localMs d div 3600000) mod 24"

definition toTimeString8 :: "jsdate \<Rightarrow> string" where
  "toTimeString8 d =
     twoDigits (nat (getHours d)) @ '':'' @
     twoDigits (nat ((localMs d div 60000) mod 60)) @ '':'' @
     twoDigits (nat ((localMs d div 1000) mod 60))"

definition toISODate :: "jsdate \<Rightarrow> int" where
  "toISODate d = epochMs d div 86400000"

definition localDate :: "jsdate \<Rightarrow> int" where
  "localDate d = localMs d div 86400000"

subsection \<open>The world of the service worker\<close>

text \<open>
  What the worker reads and writes: the key \<open>envoy_booking\<close> of \<open>chrome.storage.session\<close>
  (absent until first written), the keys \<open>lastRunDate\<close> and \<open>selectedDays\<close> of
  \<open>chrome.storage.local\<close>, its two module variables, the open tabs by identifier, the
  message of the notification \<open>bookingResult\<close>, the instant of the alarm \<open>dailyBooking\<close>, and
  the clock: the readings that the coming calls of \<open>new Date()\<close> will give, in order.
  A listener of the worker is a function from world to world: it is taken to run from its
  start to its end without another one in between. \<open>runBooking\<close>, which waits for the browser,
  is given phase by phase as well.
\<close>

record world =
  session :: "RunState option"
  lastRunDate :: "int option"
  storedSelectedDays :: "int list option"
  activeTabId :: "nat option"
  pendingSelectedDays :: "int list"
  tabs :: "nat set"
  notification :: "string option"
  alarm :: "int option"
  clock :: "jsdate stream"

text \<open>
  What the browser answers during one \<open>runBooking\<close>: \<open>chrome.tabs.create\<close> gives the new
  tab's identifier or fails; waiting for the load and \<open>chrome.tabs.get\<close> give the resolved
  address or fail (\<open>Tab load timed out\<close> is one such failure); \<open>chrome.tabs.sendMessage\<close>
  succeeds or fails. A failure is the message of its exception.
\<close>

record tabEnv =
  createTab :: "string + nat"
  loadTab :: "string + string"
  sendStart :: "string option"

subsection \<open>Daily scheduling helpers\<close>

definition getTodayString :: "world \<Rightarrow> int \<times> world" where
  "getTodayString w = (toISODate (shd (clock w)), w\<lparr>clock := stl (clock w)\<rparr>)"

text \<open>
  \<open>scheduleNextAlarm()\<close>: eight o'clock local time of the day of \<open>now\<close>, or of the next day
  when \<open>now\<close> is not before it (the offset taken as the same on both days).
\<close>

definition scheduleNextAlarm :: "world \<Rightarrow> world" where
  "scheduleNextAlarm w =
     (let now = shd (clock w);
          next8am = (localMs now div 86400000) * 86400000 + 8 * 3600000 - tzMinutes now * 60000;
          when = (if epochMs now \<ge> next8am then next8am + 86400000 else next8am)
      in w\<lparr>alarm := Some when, clock := stl (clock w)\<rparr>)"

definition showBookingNotification :: "status \<Rightarrow> int \<Rightarrow> string \<Rightarrow> world \<Rightarrow> world" where
  "showBookingNotification st tot errorMsg w =
     (let isError = (st = Error);
          isNone = (st = Done \<and> tot = 0);
          message = (if isError then ''Booking failed: '' @ errorMsg
                     else if isNone then ''No desks found to book today.''
                     else ''Done '' @ emdash @ '' scheduled '' @ showInt tot @ '' desk(s).'')
      in w\<lparr>notification := Some message\<rparr>)"

subsection \<open>Storage helpers\<close>

definition defaultState :: RunState where
  "defaultState = \<lparr>status = Idle, current = 0, total = 0, log = [], bookings = []\<rparr>"

definition getState :: "world \<Rightarrow> RunState" where
  "getState w = (case session w of Some s \<Rightarrow> s | None \<Rightarrow> defaultState)"

text \<open>\<open>setState(patch)\<close>: the patch is the update it makes to the fields it names.\<close>

definition setState :: "(RunState \<Rightarrow> RunState) \<Rightarrow> world \<Rightarrow> world" where
  "setState patch w = (let prev = getState w in w\<lparr>session := Some (patch prev)\<rparr>)"

definition addLog :: "string \<Rightarrow> string \<Rightarrow> world \<Rightarrow> world" where
  "addLog lvl text w =
     (let now = shd (clock w);
          entry = \<lparr>time = toTimeString8 now, level = lvl, msg = text\<rparr>;
          prev = getState w
      in w\<lparr>session := Some (prev\<lparr>log := log prev @ [entry]\<rparr>), clock := stl (clock w)\<rparr>)"

subsection \<open>Tab helpers\<close>

text \<open>\<open>closeTab(tabId)\<close>: the tab is gone afterwards, whether or not it was still open.\<close>

definition closeTab :: "nat \<Rightarrow> world \<Rightarrow> world" where
  "closeTab tabId w = w\<lparr>tabs := tabs w - {tabId}\<rparr>"

subsection \<open>Main booking flow\<close>

definition redirectedAway :: string where
  "redirectedAway = ''Redirected away from Envoy '' @ emdash @ '' are you logged in?''"

definition redirectedToLogin :: string where
  "redirectedToLogin = ''Redirected to login page '' @ emdash @
     '' please sign in to Envoy in Chrome first.''"

text \<open>
  The two tests on \<open>loaded.url\<close>, in the order of the source: the message of the error
  thrown, or \<open>None\<close> when neither throws.
\<close>

definition checkLoadedUrl :: "string \<Rightarrow> string option" where
  "checkLoadedUrl url =
     (if \<not> includesSub url ''dashboard.envoy.com'' then Some redirectedAway
      else if includesSub url ''/login'' \<or> includesSub url ''/sign-in'' \<or> includesSub url ''/auth''
           then Some redirectedToLogin
      else None)"

text \<open>The handler of the second and the third \<open>catch\<close> of \<open>runBooking\<close>.\<close>

definition failRun :: "string \<Rightarrow> nat \<Rightarrow> world \<Rightarrow> world" where
  "failRun text tabId w =
     (closeTab tabId (addLog ''error'' text (setState (\<lambda>s. s\<lparr>status := Error\<rparr>) w)))
       \<lparr>activeTabId := None\<rparr>"

text \<open>
  \<open>runBooking\<close> waits for the browser three times: for \<open>chrome.tabs.create\<close>, for the load
  of the tab, and for the pause before the command. Another listener of the worker can run
  during each wait, so the function is given phase by phase; a phase is what runs between
  two of these waits (the awaits on storage inside a phase are taken as immediate).

  From the call to the wait for \<open>chrome.tabs.create\<close>: the selection is stored, the guard is
  tested, the state is reset. The result says whether the run goes on; it does not when the
  guard was set.
\<close>

definition runBookingBegin :: "int list \<Rightarrow> world \<Rightarrow> bool \<times> world" where
  "runBookingBegin selectedDays w0 =
     (let w = w0\<lparr>pendingSelectedDays := selectedDays\<rparr> in
      if activeTabId w \<noteq> None then
        (False, addLog ''warn'' (''Booking already in progress '' @ emdash @
                  '' ignoring duplicate request.'') w)
      else
        (let w1 = w\<lparr>session := Some (defaultState\<lparr>status := Running, log := []\<rparr>)\<rparr>
         in (True, addLog ''info'' (''Opening Envoy schedule page in background tab'' @ ellipsis) w1)))"

text \<open>
  From the answer of \<open>chrome.tabs.create\<close> to the wait for the load: only here is the guard
  set. The result is the tab of the run, or \<open>None\<close> when no tab could be opened.
\<close>

definition runBookingOpened :: "string + nat \<Rightarrow> world \<Rightarrow> nat option \<times> world" where
  "runBookingOpened created w2 =
     (case created of
        Inl err \<Rightarrow>
          (None, (addLog ''error'' (''Failed to create tab: '' @ err)
                    (setState (\<lambda>s. s\<lparr>status := Error\<rparr>) w2))\<lparr>activeTabId := None\<rparr>)
      | Inr tabId \<Rightarrow>
          (let w3 = addLog ''info'' (''Background tab created (id='' @ showNat tabId @ '').'')
                      (w2\<lparr>tabs := insert tabId (tabs w2), activeTabId := Some tabId\<rparr>)
           in (Some tabId, addLog ''info'' (''Waiting for page to load'' @ ellipsis) w3)))"

text \<open>
  From the end of the load to the pause of 1.5 seconds: the address is checked. The result
  says whether the run goes on.
\<close>

definition runBookingLoaded :: "string + string \<Rightarrow> nat \<Rightarrow> world \<Rightarrow> bool \<times> world" where
  "runBookingLoaded loaded tabId w4 =
     (case loaded of
        Inl err \<Rightarrow> (False, failRun err tabId w4)
      | Inr url \<Rightarrow>
          (let w5 = addLog ''info'' (''Page loaded. URL: '' @ url) w4
           in case checkLoadedUrl url of
                Some err \<Rightarrow> (False, failRun err tabId w5)
              | None \<Rightarrow> (True, w5)))"

text \<open>
  After the pause: the command is sent to the tab, with the selection that
  \<open>pendingSelectedDays\<close> holds at that moment. The result is the command sent.
\<close>

definition runBookingSend :: "string option \<Rightarrow> nat \<Rightarrow> world \<Rightarrow> message \<times> world" where
  "runBookingSend sent tabId w5 =
     (let w6 = addLog ''info'' (''Sending booking command to page'' @ ellipsis) w5
      in (START_BOOKING (Some (pendingSelectedDays w6)),
          case sent of
            Some err \<Rightarrow> failRun (''Could not communicate with content script: '' @ err) tabId w6
          | None \<Rightarrow> w6))"

text \<open>\<open>runBooking\<close> when no other listener runs during its waits: the phases in a row.\<close>

definition runBooking :: "tabEnv \<Rightarrow> int list \<Rightarrow> world \<Rightarrow> world" where
  "runBooking env selectedDays w0 =
     (case runBookingBegin selectedDays w0 of
        (False, w) \<Rightarrow> w
      | (True, w2) \<Rightarrow>
          (case runBookingOpened (createTab env) w2 of
             (None, w) \<Rightarrow> w
           | (Some tabId, w4) \<Rightarrow>
               (case runBookingLoaded (loadTab env) tabId w4 of
                  (False, w) \<Rightarrow> w
                | (True, w5) \<Rightarrow> snd (runBookingSend (sendStart env) tabId w5))))"

subsection \<open>Message listener\<close>

text \<open>The part the three terminal events share: close the tab of the run and release the guard.\<close>

definition releaseTab :: "world \<Rightarrow> world" where
  "releaseTab w =
     (case activeTabId w of
        Some tabId \<Rightarrow> (closeTab tabId w)\<lparr>activeTabId := None\<rparr>
      | None \<Rightarrow> w)"

definition persistLastRunDate :: "world \<Rightarrow> world" where
  "persistLastRunDate w = (let (today, w') = getTodayString w in w'\<lparr>lastRunDate := Some today\<rparr>)"

definition orElse :: "string \<Rightarrow> string \<Rightarrow> string" where
  "orElse a b = (if a = [] then b else a)"

definition onMessage :: "tabEnv \<Rightarrow> message \<Rightarrow> world \<Rightarrow> response option \<times> world" where
  "onMessage env m w =
     (case m of
        START_BOOKING sel \<Rightarrow>
          (Some Received,
           runBooking env (case sel of None \<Rightarrow> [1, 2, 3, 4, 5] | Some days \<Rightarrow> days) w)
      | LOG lvl text \<Rightarrow>
          (Some Ok, addLog (orElse lvl ''info'') text w)
      | BOOKING_PROGRESS cur tot \<Rightarrow>
          (Some Ok,
           addLog ''info'' (''Scheduled '' @ showInt cur @ '' / '' @ showInt tot @ ellipsis)
             (setState (\<lambda>s. s\<lparr>status := Running, current := cur, total := tot\<rparr>) w))
      | BOOKING_DONE tot bks \<Rightarrow>
          (Some Ok,
           showBookingNotification Done tot []
             (persistLastRunDate
               (releaseTab
                 (addLog ''success'' (''Done! Successfully scheduled '' @ showInt tot @ '' desk(s).'')
                   (setState (\<lambda>s. s\<lparr>status := Done, current := tot, total := tot,
                                     bookings := bks\<rparr>) w)))))
      | BOOKING_NONE text \<Rightarrow>
          (Some Ok,
           showBookingNotification Done 0 []
             (persistLastRunDate
               (releaseTab
                 (addLog ''warn'' (orElse text ''No Schedule buttons were found on the page.'')
                   (setState (\<lambda>s. s\<lparr>status := Done, current := 0, total := 0\<rparr>) w)))))
      | BOOKING_ERROR text \<Rightarrow>
          (Some Ok,
           showBookingNotification Error 0 (orElse text ''An unexpected error occurred.'')
             (persistLastRunDate
               (releaseTab
                 (addLog ''error'' (orElse text ''An unexpected error occurred.'')
                   (setState (\<lambda>s. s\<lparr>status := Error\<rparr>) w)))))
      | GET_STATE \<Rightarrow> (Some (State (getState w)), w))"

subsection \<open>Lifecycle listeners\<close>

definition storedDays :: "world \<Rightarrow> int list" where
  "storedDays w = (case storedSelectedDays w of None \<Rightarrow> [1, 2, 3, 4, 5] | Some days \<Rightarrow> days)"

definition onInstalled :: "world \<Rightarrow> world" where
  "onInstalled w = scheduleNextAlarm w"

definition onStartup :: "tabEnv \<Rightarrow> world \<Rightarrow> world" where
  "onStartup env w0 =
     (let w1 = scheduleNextAlarm w0;
          now = shd (clock w1);
          w2 = w1\<lparr>clock := stl (clock w1)\<rparr>
      in if getHours now \<ge> 8 then
           (let (today, w3) = getTodayString w2
            in if lastRunDate w3 \<noteq> Some today then runBooking env (storedDays w3) w3 else w3)
         else w2)"

definition onAlarm :: "tabEnv \<Rightarrow> string \<Rightarrow> world \<Rightarrow> world" where
  "onAlarm env name w =
     (if name \<noteq> ''dailyBooking'' then w
      else (let (today, w1) = getTodayString w
            in if lastRunDate w1 \<noteq> Some today then runBooking env (storedDays w1) w1 else w1))"

section \<open>Vocabulary of the statements\<close>

text \<open>
  What a computation of the page agent guarantees from every trace: its result satisfies
  \<open>R\<close>, and every message it tries to send satisfies \<open>Q\<close>.
\<close>

definition agentSpec :: "'a agent \<Rightarrow> ((string + 'a) \<Rightarrow> bool) \<Rightarrow> (message \<Rightarrow> bool) \<Rightarrow> bool" where
  "agentSpec a R Q = (\<forall>tr. \<exists>r new. a tr = (r, tr @ new) \<and> R r \<and> list_all (\<lambda>e. Q (fst e)) new)"

definition logsAllowed :: "(message \<Rightarrow> bool) \<Rightarrow> bool" where
  "logsAllowed Q = (\<forall>l t. Q (LOG l t))"

text \<open>One text contains another: the other occurs in it, between a prefix and a suffix.\<close>

definition containsText :: "'a list \<Rightarrow> 'a list \<Rightarrow> bool" where
  "containsText s sub = (\<exists>pre post. s = pre @ sub @ post)"

text \<open>The lowercased text of a dialog button contains a confirmation keyword.\<close>

definition hasKeyword :: "string \<Rightarrow> bool" where
  "hasKeyword text = list_ex (\<lambda>kw. containsText (toLowerCase text) kw) CONFIRM_KEYWORDS"

text \<open>
  The host of an address, as the claims speak of it: the text between \<open>://\<close> and the next
  \<open>/\<close>, \<open>?\<close> or \<open>#\<close>. The source never computes it; it tests whether the host's name occurs
  anywhere in the address.
\<close>

fun afterScheme :: "string \<Rightarrow> string option" where
  "afterScheme [] = None"
| "afterScheme (c # cs) =
     (if startsWith (c # cs) ''://'' then Some (drop 3 (c # cs)) else afterScheme cs)"

definition hostOf :: "string \<Rightarrow> string" where
  "hostOf url =
     (case afterScheme url of
        None \<Rightarrow> []
      | Some r \<Rightarrow> takeWhile (\<lambda>c. c \<notin> set ''/?#'') r)"

definition onExpectedHost :: "string \<Rightarrow> bool" where
  "onExpectedHost url = (hostOf url = ''dashboard.envoy.com'')"

text \<open>The text the listener puts in the place of an empty error message.\<close>

definition defaultError :: string where
  "defaultError = ''An unexpected error occurred.''"

text \<open>The warning of \<open>handleConfirmationModal\<close> when it clicks nothing.\<close>

definition modalWarning :: string where
  "modalWarning = ''Could not find a confirm button in the modal '' @ emdash @ '' skipping modal.''"

text \<open>
  A candidate survives the day filter: the selection is empty, or its day cannot be
  determined, or its day is in the selection.
\<close>

definition survivesDayFilter :: "agentEnv \<Rightarrow> int list \<Rightarrow> button \<Rightarrow> bool" where
  "survivesDayFilter env selectedDays btn =
     (selectedDays = [] \<or>
      (case getButtonDayOfWeek env btn of None \<Rightarrow> True | Some day \<Rightarrow> day \<in> set selectedDays))"

text \<open>
  A candidate is clicked when its turn comes: it is still enabled and still attached. The
  record of the k-th click, and the records of a list of clicked candidates after \<open>k\<close>
  earlier clicks.
\<close>

definition clickedAtTurn :: "button \<Rightarrow> bool" where
  "clickedAtTurn btn = (\<not> disabledAtClick btn \<and> attachedAtClick btn)"

definition bookingOf :: "nat \<Rightarrow> button \<Rightarrow> BookingRecord" where
  "bookingOf k btn =
     \<lparr>date = (if getButtonDateLabel btn \<noteq> [] then getButtonDateLabel btn
              else ''Booking '' @ showNat k),
      desk = captureAssignedDesk (containerAfter btn)\<rparr>"

fun bookingsFrom :: "nat \<Rightarrow> button list \<Rightarrow> BookingRecord list" where
  "bookingsFrom k [] = []"
| "bookingsFrom k (b # bs) = bookingOf (Suc k) b # bookingsFrom (Suc k) bs"

text \<open>
  The two conditions on the counters: \<open>current\<close> does not exceed a nonzero \<open>total\<close>, and
  equals \<open>total\<close> when the status is \<open>done\<close>.
\<close>

definition countersOk :: "RunState \<Rightarrow> bool" where
  "countersOk s = ((total s \<noteq> 0 \<longrightarrow> current s \<le> total s) \<and> (status s = Done \<longrightarrow> current s = total s))"

text \<open>
  A message that the page agent may send during some run: it stands in the trace of the
  listener of content.js on a \<open>START_BOOKING\<close> command, for some page and some environment.
\<close>

definition agentEmits :: "message \<Rightarrow> bool" where
  "agentEmits m =
     (\<exists>env pg sel delivered.
        (m, delivered) \<in> set (snd (contentListener env pg (START_BOOKING sel) [])))"

text \<open>
  The worlds the service worker can reach. It starts with nothing in session storage, no
  tab of its own and the guard free. It then handles, one at a time, a message of the page
  agent, a command or a state query of the popup, or a lifecycle event; and the browser
  may stop the idle worker and start it again (content.js reckons with it: "background SW
  may have cycled"), which sets the module variables anew and keeps the storage.
\<close>

inductive reachable :: "world \<Rightarrow> bool" where
  start: "reachable \<lparr>session = None, lastRunDate = lrd, storedSelectedDays = ssd,
                      activeTabId = None, pendingSelectedDays = [1, 2, 3, 4, 5], tabs = ts,
                      notification = None, alarm = al, clock = clk\<rparr>"
| event: "reachable w \<Longrightarrow> agentEmits m \<Longrightarrow> reachable (snd (onMessage env m w))"
| command: "reachable w \<Longrightarrow> reachable (snd (onMessage env (START_BOOKING sel) w))"
| query: "reachable w \<Longrightarrow> reachable (snd (onMessage env GET_STATE w))"
| installed: "reachable w \<Longrightarrow> reachable (onInstalled w)"
| startup: "reachable w \<Longrightarrow> reachable (onStartup env w)"
| alarm: "reachable w \<Longrightarrow> reachable (onAlarm env name w)"
| cycled: "reachable w \<Longrightarrow>
           reachable (w\<lparr>activeTabId := None, pendingSelectedDays := [1, 2, 3, 4, 5]\<rparr>)"

section \<open>Example inputs\<close>

text \<open>An environment in which every send is delivered and no text parses as a date.\<close>

definition quietEnv :: agentEnv where
  "quietEnv = \<lparr>sendOutcome = (\<lambda>n. None), dateGetDay = (\<lambda>s. None)\<rparr>"

text \<open>An environment in which the fourth send of a run is rejected.\<close>

definition brokenEnv :: agentEnv where
  "brokenEnv = \<lparr>sendOutcome = (\<lambda>n. if n = 3 then Some ''Extension context invalidated.'' else None),
                 dateGetDay = (\<lambda>s. None)\<rparr>"

text \<open>
  An enabled \<open>Schedule\<close> button inside a day card with the given text, gone or not when its
  turn comes, with no dialog after its click.
\<close>

definition dayCard :: "string \<Rightarrow> bool \<Rightarrow> button" where
  "dayCard cont gone =
     \<lparr>disabled = False, textContent = ''Schedule'', container = Some cont,
      disabledAtClick = gone, attachedAtClick = True, modalPolls = [],
      containerAfter = Some cont\<rparr>"

text \<open>
  The schedule page, empty at the first poll, then with cards for Monday, Tuesday and
  Wednesday, the last of them disabled by the time of its turn; and a page on which no
  button ever shows.
\<close>

definition weekPage :: page where
  "weekPage = \<lparr>href = ''https://dashboard.envoy.com/schedule'',
               polls = [[], [dayCard ''Mon'' False, dayCard ''Tue'' False, dayCard ''Wed'' True]]\<rparr>"

definition emptyPage :: page where
  "emptyPage = \<lparr>href = ''https://dashboard.envoy.com/schedule'', polls = [[]]\<rparr>"

text \<open>A dialog button with the given text, enabled.\<close>

definition modalButton :: "string \<Rightarrow> mbutton" where
  "modalButton t = \<lparr>mtext = t, mdisabled = False\<rparr>"

text \<open>
  A reading of the clock: 1 March 2026, 22:00 UTC, which is 2 March, 08:00, ten hours east
  of UTC. A world in which the worker has just started, with that clock. A browser that
  opens tab 7 and loads the schedule page, and one that lands on the login page of the
  expected host. The world after a run has started in the first browser.
\<close>

definition brisbane8am :: jsdate where
  "brisbane8am = \<lparr>epochMs = 1772402400000, tzMinutes = 600\<rparr>"

definition freshWorld :: "jsdate stream \<Rightarrow> world" where
  "freshWorld clk =
     \<lparr>session = None, lastRunDate = None, storedSelectedDays = None, activeTabId = None,
      pendingSelectedDays = [1, 2, 3, 4, 5], tabs = {}, notification = None, alarm = None,
      clock = clk\<rparr>"

definition okEnv :: tabEnv where
  "okEnv = \<lparr>createTab = Inr 7, loadTab = Inr ''https://dashboard.envoy.com/schedule'',
            sendStart = None\<rparr>"

definition loginEnv :: tabEnv where
  "loginEnv = \<lparr>createTab = Inr 7, loadTab = Inr ''https://dashboard.envoy.com/login'',
               sendStart = None\<rparr>"

definition runningWorld :: world where
  "runningWorld = runBooking okEnv [1, 2, 3, 4, 5] (freshWorld (sconst brisbane8am))"

text \<open>
  A browser that opens tab 8. The world in which the first call of \<open>runBooking\<close> waits for
  \<open>chrome.tabs.create\<close>, and the world in which it has its tab 7 and waits for the load.
\<close>

definition tab8Env :: tabEnv where
  "tab8Env = \<lparr>createTab = Inr 8, loadTab = Inr ''https://dashboard.envoy.com/schedule'',
              sendStart = None\<rparr>"

definition awaitingTab :: world where
  "awaitingTab = snd (runBookingBegin [1, 2, 3, 4, 5] (freshWorld (sconst brisbane8am)))"

definition awaitingLoad :: world where
  "awaitingLoad = snd (runBookingOpened (Inr 7) awaitingTab)"

text \<open>The world of the example run after the page agent has reported its second click of three.\<close>

definition progressWorld :: world where
  "progressWorld = snd (onMessage okEnv (BOOKING_PROGRESS 2 3) runningWorld)"

text \<open>
  Three more readings of the clock. Eight hours west of UTC: Monday 2 March 2026, 17:00
  (which is Tuesday, 01:00 UTC), and Tuesday 3 March, 08:00 (16:00 UTC). Ten hours east of
  UTC: Monday 2 March, 11:00 (01:00 UTC the same day).
\<close>

definition pacificMonday5pm :: jsdate where
  "pacificMonday5pm = \<lparr>epochMs = 1772499600000, tzMinutes = - 480\<rparr>"

definition pacificTuesday8am :: jsdate where
  "pacificTuesday8am = \<lparr>epochMs = 1772553600000, tzMinutes = - 480\<rparr>"

definition brisbane11am :: jsdate where
  "brisbane11am = \<lparr>epochMs = 1772413200000, tzMinutes = 600\<rparr>"

text \<open>
  The world after a run that started and completed at the instant \<open>d\<close> (seven readings of
  the clock: five log entries of \<open>runBooking\<close>, the log entry and the date of the done
  event), with the clock at \<open>later\<close> from then on.
\<close>

definition ranAt :: "jsdate \<Rightarrow> jsdate \<Rightarrow> world" where
  "ranAt d later =
     snd (onMessage okEnv (BOOKING_DONE 5 [])
            (runBooking okEnv [1, 2, 3, 4, 5]
               (freshWorld ([d, d, d, d, d, d, d] @- sconst later))))"

section \<open>What a computation of the page agent sends\<close>

lemma agentSpec_ret: "R (Inr x) \<Longrightarrow> agentSpec (ret x) R Q"
  by (simp add: agentSpec_def ret_def)

lemma agentSpec_bnd:
  assumes a: "agentSpec a Ra Q"
    and l: "\<And>e. Ra (Inl e) \<Longrightarrow> R (Inl e)"
    and f: "\<And>x. Ra (Inr x) \<Longrightarrow> agentSpec (f x) R Q"
  shows "agentSpec (bnd a f) R Q"
  unfolding agentSpec_def
proof
  fix tr
  from a obtain r new where 1: "a tr = (r, tr @ new)" and 2: "Ra r" and 3: "list_all (\<lambda>e. Q (fst e)) new"
    unfolding agentSpec_def by blast
  show "\<exists>r new. bnd a f tr = (r, tr @ new) \<and> R r \<and> list_all (\<lambda>e. Q (fst e)) new"
  proof (cases r)
    case (Inl e)
    with 1 2 3 l show ?thesis by (auto simp: bnd_def)
  next
    case (Inr x)
    with 2 f have "agentSpec (f x) R Q" by simp
    then obtain r' new' where 4: "f x (tr @ new) = (r', (tr @ new) @ new')" and 5: "R r'"
      and 6: "list_all (\<lambda>e. Q (fst e)) new'"
      unfolding agentSpec_def by blast
    from 1 Inr 4 have "bnd a f tr = (r', tr @ (new @ new'))" by (simp add: bnd_def)
    with 5 3 6 show ?thesis by (metis list_all_append)
  qed
qed

lemma agentSpec_send:
  "Q m \<Longrightarrow> R (Inr ()) \<Longrightarrow> (\<And>e. R (Inl e)) \<Longrightarrow> agentSpec (sendMessage env m) R Q"
  by (auto simp: agentSpec_def sendMessage_def split: option.splits)

lemma agentSpec_attempt_send:
  "Q m \<Longrightarrow> R (Inr ()) \<Longrightarrow> agentSpec (attempt (sendMessage env m)) R Q"
  by (auto simp: agentSpec_def sendMessage_def attempt_def split: option.splits)

lemma agentSpec_logC: "Q (LOG l t) \<Longrightarrow> R (Inr ()) \<Longrightarrow> agentSpec (logC env l t) R Q"
  unfolding logC_def by (rule agentSpec_attempt_send)

lemma agentSpec_weaken:
  "agentSpec a R Q \<Longrightarrow> (\<And>r. R r \<Longrightarrow> R' r) \<Longrightarrow> (\<And>m. Q m \<Longrightarrow> Q' m) \<Longrightarrow> agentSpec a R' Q'"
  unfolding agentSpec_def list_all_iff by (meson)


lemma length_bookingsFrom: "length (bookingsFrom k bs) = length bs"
  by (induction bs arbitrary: k) auto


lemma agentSpec_bnd_val:
  assumes a: "agentSpec a (\<lambda>r. r = Inr v) Q" and f: "agentSpec (f v) R Q"
  shows "agentSpec (bnd a f) R Q"
  by (rule agentSpec_bnd [OF a]) (simp_all add: f)

lemma logC_spec: "logsAllowed Q \<Longrightarrow> agentSpec (logC env l t) (\<lambda>r. r = Inr ()) Q"
  by (rule agentSpec_logC) (simp_all add: logsAllowed_def)

lemma handleConfirmationModal_spec:
  assumes logs: "logsAllowed Q"
  shows "agentSpec (handleConfirmationModal env ps) (\<lambda>r. \<exists>b. r = Inr b) Q"
  unfolding handleConfirmationModal_def
  by (auto split: option.splits intro!: agentSpec_bnd_val logC_spec agentSpec_ret logs)

lemma dayFilter_spec:
  assumes logs: "logsAllowed Q"
  shows "agentSpec (dayFilter env sel btn i) (\<lambda>r. r = Inr (survivesDayFilter env sel btn)) Q"
  unfolding dayFilter_def survivesDayFilter_def
  by (auto split: option.splits
        intro!: agentSpec_bnd_val logC_spec agentSpec_ret logs)

lemma filterA_spec:
  assumes f: "\<And>x i. agentSpec (f x i) (\<lambda>r. r = Inr (P x)) Q"
  shows "agentSpec (filterA f xs i) (\<lambda>r. r = Inr (filter P xs)) Q"
proof (induction xs arbitrary: i)
  case Nil
  show ?case by (simp add: agentSpec_ret)
next
  case (Cons x xs)
  have "agentSpec (ret (if P x then x # filter P xs else filter P xs))
          (\<lambda>r. r = Inr (filter P (x # xs))) Q"
    by (rule agentSpec_ret) simp
  then have "agentSpec (bnd (filterA f xs (Suc i))
                 (\<lambda>rest. ret (if P x then x # rest else rest)))
          (\<lambda>r. r = Inr (filter P (x # xs))) Q"
    by (rule agentSpec_bnd_val [OF Cons.IH])
  then have "agentSpec (bnd (f x i) (\<lambda>keep. bnd (filterA f xs (Suc i))
                 (\<lambda>rest. ret (if keep then x # rest else rest))))
          (\<lambda>r. r = Inr (filter P (x # xs))) Q"
    by (rule agentSpec_bnd_val [OF f])
  then show ?case by (simp only: filterA.simps)
qed

lemma filteredButtons_spec:
  assumes logs: "logsAllowed Q"
  shows "agentSpec (filteredButtons env sel bs)
           (\<lambda>r. r = Inr (filter (survivesDayFilter env sel) bs)) Q"
  unfolding filteredButtons_def
  by (rule filterA_spec) (rule dayFilter_spec [OF logs])

lemma clickLoop_spec:
  assumes logs: "logsAllowed Q"
    and prog: "\<And>c. 0 < c \<Longrightarrow> c \<le> n \<Longrightarrow> Q (BOOKING_PROGRESS (int c) (int n))"
  shows "booked + length rest \<le> n \<Longrightarrow>
         agentSpec (clickLoop env n i rest booked bks)
           (\<lambda>r. r = Inr (booked + length (filter clickedAtTurn rest),
                          bks @ bookingsFrom booked (filter clickedAtTurn rest))) Q"
proof (induction rest arbitrary: i booked bks)
  case Nil
  show ?case by (simp add: agentSpec_ret)
next
  case (Cons btn rest)
  let ?R = "\<lambda>r. r = Inr (booked + length (filter clickedAtTurn (btn # rest)),
                          bks @ bookingsFrom booked (filter clickedAtTurn (btn # rest)))"
  show ?case
  proof (cases "clickedAtTurn btn")
    case False
    from Cons.prems have le: "booked + length rest \<le> n" by simp
    have "agentSpec (clickLoop env n (Suc i) rest booked bks) ?R Q"
      using Cons.IH [OF le, of "Suc i" bks] False by simp
    then have "agentSpec (bnd (logC env ''warn'' (''Button '' @ showNat (i + 1) @
        '' is no longer available '' @ emdash @ '' skipping.''))
          (\<lambda>_. clickLoop env n (Suc i) rest booked bks)) ?R Q"
      by (rule agentSpec_bnd_val [OF logC_spec [OF logs]])
    moreover from False have "disabledAtClick btn \<or> \<not> attachedAtClick btn"
      by (simp add: clickedAtTurn_def)
    ultimately show ?thesis by (simp only: clickLoop.simps if_True)
  next
    case True
    from Cons.prems have le: "Suc booked + length rest \<le> n" by simp
    from Cons.prems have q: "Q (BOOKING_PROGRESS (int (Suc booked)) (int n))"
      by (intro prog) auto
    define dateLabel where "dateLabel = getButtonDateLabel btn"
    define rec where "rec = \<lparr>date = (if dateLabel \<noteq> [] then dateLabel
                                else ''Booking '' @ showNat (Suc booked)),
                       desk = captureAssignedDesk (containerAfter btn)\<rparr>"
    have rec: "rec = bookingOf (Suc booked) btn"
      by (simp add: rec_def bookingOf_def dateLabel_def)
    have 1: "agentSpec (clickLoop env n (Suc i) rest (Suc booked) (bks @ [rec])) ?R Q"
      using Cons.IH [OF le, of "Suc i" "bks @ [rec]"] True by (simp add: rec)
    have 2: "agentSpec (bnd (handleConfirmationModal env (modalPolls btn))
               (\<lambda>_. clickLoop env n (Suc i) rest (Suc booked) (bks @ [rec]))) ?R Q"
      by (rule agentSpec_bnd [OF handleConfirmationModal_spec [OF logs]]) (use 1 in auto)
    have 3: "agentSpec (bnd (attempt (sendMessage env (BOOKING_PROGRESS (int (Suc booked)) (int n))))
               (\<lambda>_. bnd (handleConfirmationModal env (modalPolls btn))
               (\<lambda>_. clickLoop env n (Suc i) rest (Suc booked) (bks @ [rec])))) ?R Q"
      by (rule agentSpec_bnd_val [OF agentSpec_attempt_send [where Q = Q, OF q] 2]) simp
    have 4: "\<And>text. agentSpec (bnd (logC env ''info'' text) (\<lambda>_.
               bnd (attempt (sendMessage env (BOOKING_PROGRESS (int (Suc booked)) (int n))))
               (\<lambda>_. bnd (handleConfirmationModal env (modalPolls btn))
               (\<lambda>_. clickLoop env n (Suc i) rest (Suc booked) (bks @ [rec]))))) ?R Q"
      by (rule agentSpec_bnd_val [OF logC_spec [OF logs] 3])
    from True have n: "\<not> (disabledAtClick btn \<or> \<not> attachedAtClick btn)"
      by (simp add: clickedAtTurn_def)
    show ?thesis
      by (simp only: clickLoop.simps n if_False Let_def dateLabel_def [symmetric] rec_def [symmetric] 4)
  qed
qed


lemma waitForScheduleButtons_spec:
  assumes logs: "logsAllowed Q"
  shows "agentSpec (waitForScheduleButtons env ps) (\<lambda>r. r = Inr (waitFor scanPredicate ps)) Q"
  unfolding waitForScheduleButtons_def
  by (rule agentSpec_bnd_val [OF logC_spec [OF logs]]) (simp add: agentSpec_ret)

lemma runBulkBooking_spec:
  assumes logs: "logsAllowed Q"
    and none: "\<And>t. Q (BOOKING_NONE t)"
    and prog: "\<And>c n. 0 < c \<Longrightarrow> c \<le> n \<Longrightarrow> Q (BOOKING_PROGRESS (int c) (int n))"
    and fin: "\<And>buttons. waitFor scanPredicate (polls pg) = Some buttons \<Longrightarrow>
        Q (BOOKING_DONE
             (int (length (filter clickedAtTurn (filter (survivesDayFilter env sel) buttons))))
             (bookingsFrom 0 (filter clickedAtTurn (filter (survivesDayFilter env sel) buttons))))"
  shows "agentSpec (runBulkBooking env pg sel) (\<lambda>r. True) Q"
proof -
  have tail: "agentSpec
      (case found of
         None \<Rightarrow> bnd (logC env ''warn'' t1) (\<lambda>_. sendMessage env (BOOKING_NONE t2))
       | Some buttons \<Rightarrow>
           bnd (logC env ''info'' (t3 buttons)) (\<lambda>_.
           bnd (filteredButtons env sel buttons) (\<lambda>fb.
           if length fb = 0 then
             bnd (logC env ''warn'' t4) (\<lambda>_. sendMessage env (BOOKING_NONE t5))
           else
             bnd (logC env ''info'' (t6 fb)) (\<lambda>_.
             bnd (clickLoop env (length fb) 0 fb 0 []) (\<lambda>r.
             bnd (logC env ''success'' (t7 r)) (\<lambda>_.
             attempt (sendMessage env (BOOKING_DONE (int (fst r)) (snd r)))))))))
      (\<lambda>r. True) Q"
    if found: "found = waitFor scanPredicate (polls pg)"
    for found t1 t2 t3 t4 t5 t6 t7
  proof (cases found)
    case None
    have "agentSpec (sendMessage env (BOOKING_NONE t2)) (\<lambda>r. True) Q"
      by (rule agentSpec_send) (simp_all add: none)
    then show ?thesis
      unfolding None option.case by (rule agentSpec_bnd_val [OF logC_spec [OF logs]])
  next
    case (Some buttons)
    define fb where "fb = filter (survivesDayFilter env sel) buttons"
    have body: "agentSpec
        (if length fb = 0 then
             bnd (logC env ''warn'' t4) (\<lambda>_. sendMessage env (BOOKING_NONE t5))
           else
             bnd (logC env ''info'' (t6 fb)) (\<lambda>_.
             bnd (clickLoop env (length fb) 0 fb 0 []) (\<lambda>r.
             bnd (logC env ''success'' (t7 r)) (\<lambda>_.
             attempt (sendMessage env (BOOKING_DONE (int (fst r)) (snd r)))))))
        (\<lambda>r. True) Q"
    proof (cases "length fb = 0")
      case True
      have "agentSpec (sendMessage env (BOOKING_NONE t5)) (\<lambda>r. True) Q"
        by (rule agentSpec_send) (simp_all add: none)
      then have "agentSpec (bnd (logC env ''warn'' t4) (\<lambda>_. sendMessage env (BOOKING_NONE t5)))
          (\<lambda>r. True) Q"
        by (rule agentSpec_bnd_val [OF logC_spec [OF logs]])
      with True show ?thesis by simp
    next
      case False
      let ?cl = "filter clickedAtTurn fb"
      from found Some have q: "Q (BOOKING_DONE (int (length ?cl)) (bookingsFrom 0 ?cl))"
        unfolding fb_def by (intro fin) simp
      have loop: "agentSpec (clickLoop env (length fb) 0 fb 0 [])
          (\<lambda>r. r = Inr (length ?cl, bookingsFrom 0 ?cl)) Q"
        using clickLoop_spec [OF logs prog, of "length fb" 0 fb env 0 "[]"] by simp
      have "agentSpec (attempt (sendMessage env
               (BOOKING_DONE (int (fst (length ?cl, bookingsFrom 0 ?cl)))
                  (snd (length ?cl, bookingsFrom 0 ?cl))))) (\<lambda>r. True) Q"
        by (rule agentSpec_attempt_send [where Q = Q]) (simp_all add: q)
      then have "agentSpec (bnd (logC env ''success'' (t7 (length ?cl, bookingsFrom 0 ?cl))) (\<lambda>_.
             attempt (sendMessage env
               (BOOKING_DONE (int (fst (length ?cl, bookingsFrom 0 ?cl)))
                  (snd (length ?cl, bookingsFrom 0 ?cl)))))) (\<lambda>r. True) Q"
        by (rule agentSpec_bnd_val [OF logC_spec [OF logs]])
      then have "agentSpec (bnd (clickLoop env (length fb) 0 fb 0 []) (\<lambda>r.
             bnd (logC env ''success'' (t7 r)) (\<lambda>_.
             attempt (sendMessage env (BOOKING_DONE (int (fst r)) (snd r)))))) (\<lambda>r. True) Q"
        by (rule agentSpec_bnd_val [OF loop])
      then have "agentSpec (bnd (logC env ''info'' (t6 fb)) (\<lambda>_.
             bnd (clickLoop env (length fb) 0 fb 0 []) (\<lambda>r.
             bnd (logC env ''success'' (t7 r)) (\<lambda>_.
             attempt (sendMessage env (BOOKING_DONE (int (fst r)) (snd r))))))) (\<lambda>r. True) Q"
        by (rule agentSpec_bnd_val [OF logC_spec [OF logs]])
      with False show ?thesis by simp
    qed
    have "agentSpec
        (bnd (filteredButtons env sel buttons) (\<lambda>fb.
           if length fb = 0 then
             bnd (logC env ''warn'' t4) (\<lambda>_. sendMessage env (BOOKING_NONE t5))
           else
             bnd (logC env ''info'' (t6 fb)) (\<lambda>_.
             bnd (clickLoop env (length fb) 0 fb 0 []) (\<lambda>r.
             bnd (logC env ''success'' (t7 r)) (\<lambda>_.
             attempt (sendMessage env (BOOKING_DONE (int (fst r)) (snd r))))))))
        (\<lambda>r. True) Q"
      by (rule agentSpec_bnd_val [OF filteredButtons_spec [OF logs]])
         (use body in \<open>simp only: fb_def\<close>)
    then show ?thesis
      unfolding Some option.case by (rule agentSpec_bnd_val [OF logC_spec [OF logs]])
  qed
  have pre: "agentSpec (if c then logC env ''warn'' t else ret ()) (\<lambda>r. r = Inr ()) Q" for c t
    by (simp add: logC_spec [OF logs] agentSpec_ret)
  show ?thesis
    unfolding runBulkBooking_def
    apply (rule agentSpec_bnd_val [OF logC_spec [OF logs]])
    apply (rule agentSpec_bnd_val [OF pre])
    apply (rule agentSpec_bnd_val [OF waitForScheduleButtons_spec [OF logs]])
    apply (rule tail)
    apply (rule refl)
    done
qed


lemma agentSpec_fst: "agentSpec a (\<lambda>r. r = Inr v) Q \<Longrightarrow> fst (a tr) = Inr v"
  unfolding agentSpec_def by (metis fst_conv)

lemma agentSpec_sent:
  assumes "agentSpec a R Q" and "(m, d) \<in> set (snd (a []))"
  shows "Q m"
proof -
  from assms(1) obtain r new where "a [] = (r, [] @ new)" and "list_all (\<lambda>e. Q (fst e)) new"
    unfolding agentSpec_def by blast
  with assms(2) show ?thesis by (auto simp: list_all_iff)
qed

lemma contentListener_spec:
  assumes logs: "logsAllowed Q"
    and err: "\<And>t. Q (BOOKING_ERROR t)"
    and run: "\<And>days. agentSpec (runBulkBooking env pg days) (\<lambda>r. True) Q"
  shows "agentSpec (contentListener env pg m) (\<lambda>r. \<exists>x. r = Inr x) Q"
proof (cases m)
  case (START_BOOKING sel)
  define days where "days = (case sel of None \<Rightarrow> [1, 2, 3, 4, 5] | Some ds \<Rightarrow> ds)"
  have "agentSpec (attempt (sendMessage env (BOOKING_ERROR (''Unhandled error: '' @ e))))
          (\<lambda>r. r = Inr ()) Q" for e
    by (rule agentSpec_attempt_send [where Q = Q]) (simp_all add: err)
  then have oc: "agentSpec (onCatch env e) (\<lambda>r. r = Inr ()) Q" for e
    unfolding onCatch_def by (rule agentSpec_bnd_val [OF logC_spec [OF logs]])
  have catch: "agentSpec (bnd (onCatch env e) (\<lambda>_. ret (Some Received))) (\<lambda>r. \<exists>x. r = Inr x) Q" for e
    by (rule agentSpec_bnd_val [OF oc]) (simp add: agentSpec_ret)
  show ?thesis
    unfolding agentSpec_def
  proof
    fix tr
    from run [of days] obtain r new where 1: "runBulkBooking env pg days tr = (r, tr @ new)"
      and 2: "list_all (\<lambda>e. Q (fst e)) new"
      unfolding agentSpec_def by blast
    show "\<exists>r new. contentListener env pg m tr = (r, tr @ new) \<and> (\<exists>x. r = Inr x) \<and>
            list_all (\<lambda>e. Q (fst e)) new"
    proof (cases r)
      case (Inr u)
      with 1 2 START_BOOKING show ?thesis
        by (simp add: contentListener_def days_def)
    next
      case (Inl e)
      from catch [of e] obtain x new' where
        3: "bnd (onCatch env e) (\<lambda>_. ret (Some Received)) (tr @ new) = (Inr x, (tr @ new) @ new')"
        and 4: "list_all (\<lambda>e. Q (fst e)) new'"
        unfolding agentSpec_def by blast
      from 1 Inl 3 START_BOOKING have "contentListener env pg m tr = (Inr x, tr @ (new @ new'))"
        by (simp add: contentListener_def days_def)
      with 2 4 show ?thesis by (metis list_all_append)
    qed
  qed
qed (simp_all add: contentListener_def agentSpec_ret)

text \<open>The definitions that the kernel unfolds to run the page agent on an example.\<close>

lemmas agent_eval = quietEnv_def brokenEnv_def dayCard_def weekPage_def emptyPage_def
  runBulkBooking_def contentListener_def onCatch_def bnd_def ret_def attempt_def
  sendMessage_def logC_def waitForScheduleButtons_def scanPredicate_def findScheduleButtons_def
  isScheduleButton_def BUTTON_LABELS_def toLowerCase_def toLowerChar_def upperChars_def lowerChars_def
  trim_def isSpace_def filteredButtons_def dayFilter_def getButtonDayOfWeek_def dayAbbrAt_def dayNames3_def
  dayMap_def isWordChar_def isAlpha_def isDigit_def digitChars_def handleConfirmationModal_def
  getButtonDateLabel_def actionWordAt_def ACTION_WORDS_def captureAssignedDesk_def deskAt_def DESK_WORDS_def
  isDeskTokenChar_def showNat.simps showInt_def dayName_def DAY_NAMES_def emdash_def ellipsis_def Let_def

section \<open>The page agent: the count of a completed run\<close>

text \<open>
  Claim C10. In every \<open>BOOKING_DONE\<close> that a run of \<open>runBulkBooking\<close> sends, the total equals
  the length of the bookings list, and both equal the number of candidates clicked: the
  candidates that the discovery found and the day filter kept, less those disabled or
  detached when their turn came. The bookings are the records of the clicked candidates,
  one each, in order; a skipped candidate adds nothing to either.
\<close>

theorem done_total_is_clicked_count:
  assumes "(BOOKING_DONE tot bks, delivered) \<in> set (snd (runBulkBooking env pg selectedDays []))"
  shows "\<exists>buttons clicked.
           waitFor scanPredicate (polls pg) = Some buttons \<and>
           clicked = filter clickedAtTurn (filter (survivesDayFilter env selectedDays) buttons) \<and>
           tot = int (length bks) \<and> length bks = length clicked \<and>
           bks = bookingsFrom 0 clicked"
proof -
  define Q where "Q = (\<lambda>m. \<forall>t b. m = BOOKING_DONE t b \<longrightarrow>
     (\<exists>buttons clicked.
           waitFor scanPredicate (polls pg) = Some buttons \<and>
           clicked = filter clickedAtTurn (filter (survivesDayFilter env selectedDays) buttons) \<and>
           t = int (length b) \<and> length b = length clicked \<and>
           b = bookingsFrom 0 clicked))"
  have "agentSpec (runBulkBooking env pg selectedDays) (\<lambda>r. True) Q"
    by (rule runBulkBooking_spec) (simp_all add: Q_def logsAllowed_def length_bookingsFrom)
  from agentSpec_sent [OF this assms] show ?thesis
    by (simp add: Q_def)
qed

text \<open>
  On the example page the filter keeps three cards and the third is disabled at its turn:
  the run reports two bookings.
\<close>

theorem done_total_is_clicked_count_witness:
  "(BOOKING_DONE 2 [\<lparr>date = ''Mon'', desk = ''Booked''\<rparr>, \<lparr>date = ''Tue'', desk = ''Booked''\<rparr>], True)
     \<in> set (snd (runBulkBooking quietEnv weekPage [1, 2, 3] [])) \<and>
   (\<exists>buttons clicked.
      waitFor scanPredicate (polls weekPage) = Some buttons \<and>
      clicked = filter clickedAtTurn (filter (survivesDayFilter quietEnv [1, 2, 3]) buttons) \<and>
      (2::int) = int (length [\<lparr>date = ''Mon'', desk = ''Booked''\<rparr>, \<lparr>date = ''Tue'', desk = ''Booked''\<rparr>]) \<and>
      length [\<lparr>date = ''Mon'', desk = ''Booked''\<rparr>, \<lparr>date = ''Tue'', desk = ''Booked''\<rparr>] = length clicked \<and>
      [\<lparr>date = ''Mon'', desk = ''Booked''\<rparr>, \<lparr>date = ''Tue'', desk = ''Booked''\<rparr>] = bookingsFrom 0 clicked)"
proof -
  have h: "(BOOKING_DONE 2 [\<lparr>date = ''Mon'', desk = ''Booked''\<rparr>, \<lparr>date = ''Tue'', desk = ''Booked''\<rparr>], True)
     \<in> set (snd (runBulkBooking quietEnv weekPage [1, 2, 3] []))"
    by (simp add: agent_eval)
  from done_total_is_clicked_count [OF h] h show ?thesis by blast
qed

section \<open>The page agent: the day filter\<close>

text \<open>
  Claim C4, as stated: for every selection of weekday integers, a candidate whose day is
  determined and is not in the selection is dropped. It fails for the empty selection, which
  \<open>START_BOOKING\<close> can carry (an empty array is truthy, so no default replaces it): the
  callback keeps every candidate then. A Monday card survives the empty selection.
\<close>

theorem day_filter_empty_selection_counterexample:
  "getButtonDayOfWeek quietEnv (dayCard ''Mon'' False) = Some 1 \<and> (1::int) \<notin> set [] \<and>
   fst (filteredButtons quietEnv [] [dayCard ''Mon'' False] []) = Inr [dayCard ''Mon'' False]"
  by (simp add: agent_eval)

text \<open>
  Claim C4, amended. The result of the day filter does not depend on the trace or on the
  fate of the sends, and each candidate is judged alone, whatever its position. For a
  selection that is not empty, a candidate is kept exactly when its day cannot be
  determined or is in the selection; for the empty selection every candidate is kept.
\<close>

theorem day_filter_fail_open:
  "(selectedDays \<noteq> [] \<longrightarrow>
      fst (filteredButtons env selectedDays buttons tr) =
        Inr (filter (\<lambda>btn. case getButtonDayOfWeek env btn of
                              None \<Rightarrow> True
                            | Some day \<Rightarrow> day \<in> set selectedDays) buttons)) \<and>
   (selectedDays = [] \<longrightarrow> fst (filteredButtons env selectedDays buttons tr) = Inr buttons)"
proof -
  have "agentSpec (filteredButtons env selectedDays buttons)
          (\<lambda>r. r = Inr (filter (survivesDayFilter env selectedDays) buttons)) (\<lambda>m. True)"
    by (rule filteredButtons_spec) (simp add: logsAllowed_def)
  then have "fst (filteredButtons env selectedDays buttons tr) =
      Inr (filter (survivesDayFilter env selectedDays) buttons)"
    by (rule agentSpec_fst)
  moreover have "selectedDays \<noteq> [] \<Longrightarrow> survivesDayFilter env selectedDays =
      (\<lambda>btn. case getButtonDayOfWeek env btn of None \<Rightarrow> True | Some day \<Rightarrow> day \<in> set selectedDays)"
    by (simp add: fun_eq_iff survivesDayFilter_def)
  moreover have "selectedDays = [] \<Longrightarrow> survivesDayFilter env selectedDays = (\<lambda>btn. True)"
    by (simp add: fun_eq_iff survivesDayFilter_def)
  ultimately show ?thesis by auto
qed

text \<open>
  With Monday and Wednesday selected, the Monday card is kept, the Tuesday card is dropped,
  and a card whose text names no day is kept.
\<close>

theorem day_filter_fail_open_witness:
  "fst (filteredButtons quietEnv [1, 3] [dayCard ''Mon'' False, dayCard ''Tue'' False, dayCard ''someday'' False] []) =
     Inr [dayCard ''Mon'' False, dayCard ''someday'' False] \<and>
   fst (filteredButtons quietEnv [] [dayCard ''Tue'' False] []) = Inr [dayCard ''Tue'' False]"
proof -
  have 1: "[1, 3] \<noteq> ([]::int list)" by simp
  have 2: "getButtonDayOfWeek quietEnv (dayCard ''Mon'' False) = Some 1"
    "getButtonDayOfWeek quietEnv (dayCard ''Tue'' False) = Some 2"
    "getButtonDayOfWeek quietEnv (dayCard ''someday'' False) = None"
    by (simp_all add: agent_eval matchNumDate.simps numDateAt_def monthDayAt_def monthNames3_def)
  from day_filter_fail_open [of "[1, 3]" quietEnv "[dayCard ''Mon'' False, dayCard ''Tue'' False, dayCard ''someday'' False]" "[]"]
    day_filter_fail_open [of "[]" quietEnv "[dayCard ''Tue'' False]" "[]"] 1 2
  show ?thesis by simp
qed

section \<open>The page agent: the confirm button of a dialog\<close>

lemma startsWith_iff: "startsWith s p \<longleftrightarrow> (\<exists>post. s = p @ post)"
  by (induction s p rule: startsWith.induct) auto

lemma includesSub_iff: "includesSub s sub \<longleftrightarrow> containsText s sub"
proof (induction s)
  case Nil
  show ?case by (auto simp: containsText_def)
next
  case (Cons c cs)
  show ?case
  proof
    assume "includesSub (c # cs) sub"
    then consider "startsWith (c # cs) sub" | "includesSub cs sub" by auto
    then show "containsText (c # cs) sub"
    proof cases
      case 1
      then obtain post where "c # cs = [] @ sub @ post" by (auto simp: startsWith_iff)
      then show ?thesis unfolding containsText_def by blast
    next
      case 2
      with Cons.IH obtain pre post where "cs = pre @ sub @ post" by (auto simp: containsText_def)
      then have "c # cs = (c # pre) @ sub @ post" by simp
      then show ?thesis unfolding containsText_def by blast
    qed
  next
    assume "containsText (c # cs) sub"
    then obtain pre post where eq: "c # cs = pre @ sub @ post" by (auto simp: containsText_def)
    show "includesSub (c # cs) sub"
    proof (cases pre)
      case Nil
      with eq have "startsWith (c # cs) sub" by (auto simp: startsWith_iff)
      then show ?thesis by simp
    next
      case (Cons p pre')
      with eq have "cs = pre' @ sub @ post" by simp
      then have "containsText cs sub" unfolding containsText_def by blast
      with Cons.IH show ?thesis by simp
    qed
  qed
qed

text \<open>White space around a text holds no occurrence of a word without white space.\<close>

lemma includesSub_dropWhile:
  assumes "kw \<noteq> []" and "\<not> P (hd kw)"
  shows "includesSub (dropWhile P s) kw \<longleftrightarrow> includesSub s kw"
proof (induction s)
  case Nil
  show ?case by simp
next
  case (Cons c cs)
  from assms obtain k ks where kw: "kw = k # ks" and k: "\<not> P k" by (cases kw) auto
  show ?case
  proof (cases "P c")
    case True
    with k have "c \<noteq> k" by auto
    with True Cons.IH show ?thesis by (simp add: kw)
  next
    case False
    then show ?thesis by simp
  qed
qed

lemma containsText_rev: "containsText (rev s) (rev sub) \<longleftrightarrow> containsText s sub"
proof -
  have "containsText s sub \<Longrightarrow> containsText (rev s) (rev sub)" for s sub :: "'a list"
  proof -
    assume "containsText s sub"
    then obtain pre post where "s = pre @ sub @ post" by (auto simp: containsText_def)
    then have "rev s = rev post @ rev sub @ rev pre" by simp
    then show ?thesis unfolding containsText_def by blast
  qed
  from this [of s sub] this [of "rev s" "rev sub"] show ?thesis by auto
qed

lemma containsText_trim:
  assumes ne: "kw \<noteq> []" and h: "\<not> isSpace (hd kw)" and l: "\<not> isSpace (last kw)"
  shows "containsText (trim s) kw \<longleftrightarrow> containsText s kw"
proof -
  have r: "rev kw \<noteq> []" "\<not> isSpace (hd (rev kw))" using ne l by (simp_all add: hd_rev)
  have "containsText (trim s) kw \<longleftrightarrow> containsText (dropWhile isSpace (rev (dropWhile isSpace s))) (rev kw)"
    unfolding trim_def using containsText_rev [of "rev (dropWhile isSpace (rev (dropWhile isSpace s)))" "kw"]
    by simp
  also have "\<dots> \<longleftrightarrow> containsText (rev (dropWhile isSpace s)) (rev kw)"
    using includesSub_dropWhile [where P = isSpace, OF r] by (simp add: includesSub_iff)
  also have "\<dots> \<longleftrightarrow> containsText (dropWhile isSpace s) kw"
    by (rule containsText_rev)
  also have "\<dots> \<longleftrightarrow> containsText s kw"
    using includesSub_dropWhile [where P = isSpace, OF ne h] by (simp add: includesSub_iff)
  finally show ?thesis .
qed

lemma isSpace_toLowerChar: "isSpace (toLowerChar c) = isSpace c"
  unfolding toLowerChar_def isSpace_def upperChars_def lowerChars_def
  by (auto split: option.splits if_splits)

lemma toLowerCase_trim: "toLowerCase (trim s) = trim (toLowerCase s)"
proof -
  have comp: "isSpace \<circ> toLowerChar = isSpace" by (simp add: fun_eq_iff isSpace_toLowerChar)
  have dw: "map toLowerChar (dropWhile isSpace xs) = dropWhile isSpace (map toLowerChar xs)" for xs
    by (simp add: dropWhile_map comp)
  have "map toLowerChar (rev (dropWhile isSpace (rev (dropWhile isSpace s)))) =
        rev (map toLowerChar (dropWhile isSpace (rev (dropWhile isSpace s))))"
    by (simp only: rev_map)
  also have "\<dots> = rev (dropWhile isSpace (map toLowerChar (rev (dropWhile isSpace s))))"
    by (simp only: dw)
  also have "\<dots> = rev (dropWhile isSpace (rev (map toLowerChar (dropWhile isSpace s))))"
    by (simp only: rev_map)
  also have "\<dots> = rev (dropWhile isSpace (rev (dropWhile isSpace (map toLowerChar s))))"
    by (simp only: dw)
  finally show ?thesis
    unfolding trim_def toLowerCase_def .
qed

lemma isConfirm_iff: "isConfirm b \<longleftrightarrow> hasKeyword (mtext b)"
proof -
  have "containsText (toLowerCase (trim t)) kw \<longleftrightarrow> containsText (toLowerCase t) kw"
    if "kw \<in> set CONFIRM_KEYWORDS" for kw t
  proof -
    from that have "kw \<noteq> []" "\<not> isSpace (hd kw)" "\<not> isSpace (last kw)"
      by (auto simp: CONFIRM_KEYWORDS_def isSpace_def)
    then show ?thesis by (simp add: toLowerCase_trim containsText_trim)
  qed
  then show ?thesis
    by (simp add: isConfirm_def hasKeyword_def Let_def includesSub_iff list_ex_iff)
qed


lemma find_isConfirm_texts:
  "map mtext bs = map mtext bs' \<Longrightarrow>
   map_option mtext (find isConfirm bs) = map_option mtext (find isConfirm bs')"
proof (induction bs arbitrary: bs')
  case Nil
  then show ?case by simp
next
  case (Cons b bs)
  then obtain c cs where bs': "bs' = c # cs" and t: "mtext b = mtext c" and r: "map mtext bs = map mtext cs"
    by (cases bs') auto
  from t have "isConfirm b = isConfirm c" by (simp add: isConfirm_def)
  with Cons.IH [OF r] t show ?case by (simp add: bs')
qed

lemma logC_eq: "logC env l t tr = (Inr (), tr @ [(LOG l t, sendOutcome env (length tr) = None)])"
  by (simp add: logC_def attempt_def sendMessage_def split: option.splits)

text \<open>
  Claim C5. The button to click is determined by the texts of the dialog's buttons. It is
  the first button whose lowercased text contains a confirmation keyword; when no text
  contains one, it is the sole button if there is exactly one, and none otherwise.
  \<open>handleConfirmationModal\<close> acts on that choice: with an enabled button chosen it logs the
  click of that button as its last message and returns \<open>true\<close>; with none chosen (or the
  chosen one disabled) it returns \<open>false\<close> with the warning as its last log; with no dialog
  it returns \<open>false\<close>. On the dialog \<open>Cancel, Confirm Booking\<close> it clicks \<open>Confirm Booking\<close>; on
  \<open>Dismiss\<close> alone it clicks \<open>Dismiss\<close>; on \<open>Cancel, Dismiss\<close> it clicks nothing and warns.
\<close>

theorem modal_confirm_selection:
  "(\<forall>i. i < length buttons \<and> hasKeyword (mtext (buttons ! i)) \<and>
        (\<forall>j<i. \<not> hasKeyword (mtext (buttons ! j))) \<longrightarrow> toClick buttons = Some (buttons ! i)) \<and>
   ((\<forall>b \<in> set buttons. \<not> hasKeyword (mtext b)) \<longrightarrow>
      toClick buttons = (if length buttons = 1 then Some (buttons ! 0) else None)) \<and>
   (waitFor (\<lambda>dialog. dialog) ps = Some buttons \<and> toClick buttons = None \<longrightarrow>
      (\<exists>tr' d. handleConfirmationModal env ps tr = (Inr False, tr' @ [(LOG ''warn'' modalWarning, d)]))) \<and>
   (map mtext buttons = map mtext buttons' \<longrightarrow>
      map_option mtext (toClick buttons) = map_option mtext (toClick buttons')) \<and>
   toClick [\<lparr>mtext = ''Cancel'', mdisabled = d1\<rparr>, \<lparr>mtext = ''Confirm Booking'', mdisabled = d2\<rparr>] =
     Some \<lparr>mtext = ''Confirm Booking'', mdisabled = d2\<rparr> \<and>
   toClick [\<lparr>mtext = ''Dismiss'', mdisabled = d1\<rparr>] = Some \<lparr>mtext = ''Dismiss'', mdisabled = d1\<rparr> \<and>
   toClick [\<lparr>mtext = ''Cancel'', mdisabled = d1\<rparr>, \<lparr>mtext = ''Dismiss'', mdisabled = d2\<rparr>] = None \<and>
   (waitFor (\<lambda>dialog. dialog) ps = Some buttons \<and> toClick buttons = Some b \<and> \<not> mdisabled b \<longrightarrow>
      (\<exists>tr' d. handleConfirmationModal env ps tr =
         (Inr True, tr' @ [(LOG ''info'' (''Clicking modal button: \"'' @ trim (mtext b) @ ''\"''), d)]))) \<and>
   (waitFor (\<lambda>dialog. dialog) ps = Some buttons \<and> toClick buttons = Some b \<and> mdisabled b \<longrightarrow>
      (\<exists>tr' d. handleConfirmationModal env ps tr = (Inr False, tr' @ [(LOG ''warn'' modalWarning, d)]))) \<and>
   (waitFor (\<lambda>dialog. dialog) ps = None \<longrightarrow> fst (handleConfirmationModal env ps tr) = Inr False) \<and>
   (\<exists>tr' d. handleConfirmationModal env
        [Some [\<lparr>mtext = ''Cancel'', mdisabled = d1\<rparr>, \<lparr>mtext = ''Confirm Booking'', mdisabled = False\<rparr>]] tr =
      (Inr True, tr' @ [(LOG ''info'' ''Clicking modal button: \"Confirm Booking\"'', d)])) \<and>
   (\<exists>tr' d. handleConfirmationModal env [Some [\<lparr>mtext = ''Dismiss'', mdisabled = False\<rparr>]] tr =
      (Inr True, tr' @ [(LOG ''info'' ''Clicking modal button: \"Dismiss\"'', d)])) \<and>
   (\<exists>tr' d. handleConfirmationModal env
        [Some [\<lparr>mtext = ''Cancel'', mdisabled = d1\<rparr>, \<lparr>mtext = ''Dismiss'', mdisabled = d2\<rparr>]] tr =
      (Inr False, tr' @ [(LOG ''warn'' modalWarning, d)]))"
proof (intro conjI allI impI)
  fix i
  assume "i < length buttons \<and> hasKeyword (mtext (buttons ! i)) \<and>
          (\<forall>j<i. \<not> hasKeyword (mtext (buttons ! j)))"
  then have "find isConfirm buttons = Some (buttons ! i)"
    unfolding find_Some_iff isConfirm_iff by blast
  then show "toClick buttons = Some (buttons ! i)"
    by (simp add: toClick_def confirmBtn_def)
next
  assume "\<forall>b \<in> set buttons. \<not> hasKeyword (mtext b)"
  then have "find isConfirm buttons = None"
    unfolding find_None_iff isConfirm_iff by blast
  then have "toClick buttons = (case buttons of [b] \<Rightarrow> Some b | _ \<Rightarrow> None)"
    by (simp add: toClick_def confirmBtn_def)
  also have "\<dots> = (if length buttons = 1 then Some (buttons ! 0) else None)"
    by (simp split: list.splits)
  finally show "toClick buttons = (if length buttons = 1 then Some (buttons ! 0) else None)" .
next
  assume "waitFor (\<lambda>dialog. dialog) ps = Some buttons \<and> toClick buttons = None"
  then show "\<exists>tr' d. handleConfirmationModal env ps tr = (Inr False, tr' @ [(LOG ''warn'' modalWarning, d)])"
    by (simp add: handleConfirmationModal_def bnd_def ret_def logC_eq modalWarning_def)
next
  assume eq: "map mtext buttons = map mtext buttons'"
  then have len: "length buttons = length buttons'" by (rule map_eq_imp_length_eq)
  from eq have one: "map_option mtext (case buttons of [b] \<Rightarrow> Some b | _ \<Rightarrow> None) =
      map_option mtext (case buttons' of [b] \<Rightarrow> Some b | _ \<Rightarrow> None)"
    by (cases buttons; cases buttons'; cases "tl buttons"; cases "tl buttons'") auto
  from find_isConfirm_texts [OF eq] one
  show "map_option mtext (toClick buttons) = map_option mtext (toClick buttons')"
    by (cases "find isConfirm buttons"; cases "find isConfirm buttons'")
       (auto simp: toClick_def confirmBtn_def)
next
  assume "waitFor (\<lambda>dialog. dialog) ps = Some buttons \<and> toClick buttons = Some b \<and> \<not> mdisabled b"
  then show "\<exists>tr' d. handleConfirmationModal env ps tr =
         (Inr True, tr' @ [(LOG ''info'' (''Clicking modal button: \"'' @ trim (mtext b) @ ''\"''), d)])"
    by (simp add: handleConfirmationModal_def bnd_def ret_def logC_eq)
next
  assume "waitFor (\<lambda>dialog. dialog) ps = Some buttons \<and> toClick buttons = Some b \<and> mdisabled b"
  then show "\<exists>tr' d. handleConfirmationModal env ps tr = (Inr False, tr' @ [(LOG ''warn'' modalWarning, d)])"
    by (simp add: handleConfirmationModal_def bnd_def ret_def logC_eq modalWarning_def)
next
  assume "waitFor (\<lambda>dialog. dialog) ps = None"
  then show "fst (handleConfirmationModal env ps tr) = Inr False"
    by (simp add: handleConfirmationModal_def bnd_def ret_def logC_eq)
qed (simp_all add: handleConfirmationModal_def bnd_def ret_def logC_eq modalWarning_def
       toClick_def confirmBtn_def isConfirm_def CONFIRM_KEYWORDS_def toLowerCase_def
       toLowerChar_def upperChars_def lowerChars_def trim_def isSpace_def)

lemmas modal_eval = modalButton_def isConfirm_def CONFIRM_KEYWORDS_def toLowerCase_def
  toLowerChar_def upperChars_def lowerChars_def trim_def isSpace_def

text \<open>
  The three dialogs of the claim, showing at the second poll, with the keyword tests
  evaluated.
\<close>

theorem modal_confirm_selection_witness:
  "toClick [modalButton ''Cancel'', modalButton ''Confirm Booking''] = Some (modalButton ''Confirm Booking'') \<and>
   toClick [modalButton ''Dismiss''] = Some (modalButton ''Dismiss'') \<and>
   toClick [modalButton ''Cancel'', modalButton ''Dismiss''] = None \<and>
   (\<exists>tr' d. handleConfirmationModal quietEnv [None, Some [modalButton ''Cancel'', modalButton ''Confirm Booking'']] [] =
              (Inr True, tr' @ [(LOG ''info'' ''Clicking modal button: \"Confirm Booking\"'', d)])) \<and>
   (\<exists>tr' d. handleConfirmationModal quietEnv [None, Some [modalButton ''Dismiss'']] [] =
              (Inr True, tr' @ [(LOG ''info'' ''Clicking modal button: \"Dismiss\"'', d)])) \<and>
   (\<exists>tr' d. handleConfirmationModal quietEnv [None, Some [modalButton ''Cancel'', modalButton ''Dismiss'']] [] =
              (Inr False, tr' @ [(LOG ''warn'' modalWarning, d)]))"
proof -
  have k: "hasKeyword ''Confirm Booking''" "\<not> hasKeyword ''Cancel''" "\<not> hasKeyword ''Dismiss''"
    using isConfirm_iff [of "modalButton ''Confirm Booking''"] isConfirm_iff [of "modalButton ''Cancel''"]
      isConfirm_iff [of "modalButton ''Dismiss''"]
    by (simp_all add: modal_eval)
  let ?cc = "[modalButton ''Cancel'', modalButton ''Confirm Booking'']"
  let ?d = "[modalButton ''Dismiss'']"
  let ?cd = "[modalButton ''Cancel'', modalButton ''Dismiss'']"
  have 1: "toClick ?cc = Some (modalButton ''Confirm Booking'')"
    using modal_confirm_selection [of ?cc] k by (simp add: modalButton_def less_Suc_eq)
  have 2: "toClick ?d = Some (modalButton ''Dismiss'')"
    using modal_confirm_selection [of ?d] k by (simp add: modalButton_def)
  have 3: "toClick ?cd = None"
    using modal_confirm_selection [of ?cd] k by (simp add: modalButton_def)
  have t: "trim ''Confirm Booking'' = ''Confirm Booking''" "trim ''Dismiss'' = ''Dismiss''"
    by (simp_all add: trim_def isSpace_def)
  have 4: "\<exists>tr' d. handleConfirmationModal quietEnv [None, Some ?cc] [] =
              (Inr True, tr' @ [(LOG ''info'' ''Clicking modal button: \"Confirm Booking\"'', d)])"
    using modal_confirm_selection [where buttons = ?cc and ps = "[None, Some ?cc]"
        and b = "modalButton ''Confirm Booking''" and env = quietEnv and tr = "[]"] 1 t
    by (simp add: modalButton_def)
  have 5: "\<exists>tr' d. handleConfirmationModal quietEnv [None, Some ?d] [] =
              (Inr True, tr' @ [(LOG ''info'' ''Clicking modal button: \"Dismiss\"'', d)])"
    using modal_confirm_selection [where buttons = ?d and ps = "[None, Some ?d]"
        and b = "modalButton ''Dismiss''" and env = quietEnv and tr = "[]"] 2 t
    by (simp add: modalButton_def)
  have 6: "\<exists>tr' d. handleConfirmationModal quietEnv [None, Some ?cd] [] =
              (Inr False, tr' @ [(LOG ''warn'' modalWarning, d)])"
    using modal_confirm_selection [where buttons = ?cd and ps = "[None, Some ?cd]"
        and env = quietEnv and tr = "[]"] 3 by simp
  from 1 2 3 4 5 6 show ?thesis by blast
qed

section \<open>The page agent: unhandled failures\<close>

text \<open>
  Claim C6. No exception escapes the listener of content.js, whatever the message, the
  page and the fate of the sends. When \<open>runBulkBooking\<close> throws with message \<open>err\<close>, the
  handler of \<open>.catch\<close> logs the failure and then sends a \<open>BOOKING_ERROR\<close> whose message is
  \<open>err\<close> behind the words \<open>Unhandled error: \<close>; these are the last two sends of the run, each
  delivered or not as the channel allows.
\<close>

theorem unhandled_failure_reported:
  "(\<exists>r. fst (contentListener env pg m tr) = Inr r) \<and>
   (fst (runBulkBooking env pg (case sel of None \<Rightarrow> [1, 2, 3, 4, 5] | Some days \<Rightarrow> days) tr) = Inl err \<longrightarrow>
      (\<exists>d1 d2. contentListener env pg (START_BOOKING sel) tr =
         (Inr (Some Received),
          snd (runBulkBooking env pg (case sel of None \<Rightarrow> [1, 2, 3, 4, 5] | Some days \<Rightarrow> days) tr) @
            [(LOG ''error'' (''Unhandled error: '' @ err), d1),
             (BOOKING_ERROR (''Unhandled error: '' @ err), d2)])))"
proof
  have run: "agentSpec (runBulkBooking env pg days) (\<lambda>r. True) (\<lambda>m. True)" for days
    by (rule runBulkBooking_spec) (simp_all add: logsAllowed_def)
  have "agentSpec (contentListener env pg m) (\<lambda>r. \<exists>x. r = Inr x) (\<lambda>m. True)"
    by (rule contentListener_spec [OF _ _ run]) (simp_all add: logsAllowed_def)
  then show "\<exists>r. fst (contentListener env pg m tr) = Inr r"
    unfolding agentSpec_def by (metis fst_conv)
next
  show "fst (runBulkBooking env pg (case sel of None \<Rightarrow> [1, 2, 3, 4, 5] | Some days \<Rightarrow> days) tr) = Inl err \<longrightarrow>
      (\<exists>d1 d2. contentListener env pg (START_BOOKING sel) tr =
         (Inr (Some Received),
          snd (runBulkBooking env pg (case sel of None \<Rightarrow> [1, 2, 3, 4, 5] | Some days \<Rightarrow> days) tr) @
            [(LOG ''error'' (''Unhandled error: '' @ err), d1),
             (BOOKING_ERROR (''Unhandled error: '' @ err), d2)]))"
    by (cases "runBulkBooking env pg (case sel of None \<Rightarrow> [1, 2, 3, 4, 5] | Some days \<Rightarrow> days) tr")
       (auto simp: contentListener_def onCatch_def bnd_def ret_def logC_eq attempt_def sendMessage_def
          split: option.splits)
qed

text \<open>
  On a page without buttons, in an environment that rejects the fourth send, the send of
  \<open>BOOKING_NONE\<close> throws, and the listener reports it.
\<close>

theorem unhandled_failure_reported_witness:
  "fst (runBulkBooking brokenEnv emptyPage [1, 2, 3, 4, 5] []) = Inl ''Extension context invalidated.'' \<and>
   (\<exists>d1 d2. contentListener brokenEnv emptyPage (START_BOOKING None) [] =
      (Inr (Some Received),
       snd (runBulkBooking brokenEnv emptyPage [1, 2, 3, 4, 5] []) @
         [(LOG ''error'' (''Unhandled error: '' @ ''Extension context invalidated.''), d1),
          (BOOKING_ERROR (''Unhandled error: '' @ ''Extension context invalidated.''), d2)]))"
proof -
  have h: "fst (runBulkBooking brokenEnv emptyPage [1, 2, 3, 4, 5] []) = Inl ''Extension context invalidated.''"
    by (simp add: agent_eval)
  from unhandled_failure_reported [of brokenEnv emptyPage "START_BOOKING None" "[]" None
      "''Extension context invalidated.''"] h
  show ?thesis by simp
qed

section \<open>The orchestrator: reading the run state\<close>

text \<open>The phases of \<open>runBooking\<close> in a row, written out.\<close>

lemma runBooking_unfold:
  "runBooking env selectedDays w0 =
     (let w = w0\<lparr>pendingSelectedDays := selectedDays\<rparr> in
      if activeTabId w \<noteq> None then
        addLog ''warn'' (''Booking already in progress '' @ emdash @
          '' ignoring duplicate request.'') w
      else
        (let w1 = w\<lparr>session := Some (defaultState\<lparr>status := Running, log := []\<rparr>)\<rparr>;
             w2 = addLog ''info'' (''Opening Envoy schedule page in background tab'' @ ellipsis) w1
         in case createTab env of
              Inl err \<Rightarrow>
                (addLog ''error'' (''Failed to create tab: '' @ err)
                   (setState (\<lambda>s. s\<lparr>status := Error\<rparr>) w2))\<lparr>activeTabId := None\<rparr>
            | Inr tabId \<Rightarrow>
                (let w3 = addLog ''info'' (''Background tab created (id='' @ showNat tabId @ '').'')
                            (w2\<lparr>tabs := insert tabId (tabs w2), activeTabId := Some tabId\<rparr>);
                     w4 = addLog ''info'' (''Waiting for page to load'' @ ellipsis) w3
                 in case loadTab env of
                      Inl err \<Rightarrow> failRun err tabId w4
                    | Inr url \<Rightarrow>
                        (let w5 = addLog ''info'' (''Page loaded. URL: '' @ url) w4
                         in case checkLoadedUrl url of
                              Some err \<Rightarrow> failRun err tabId w5
                            | None \<Rightarrow>
                                (let w6 = addLog ''info''
                                            (''Sending booking command to page'' @ ellipsis) w5
                                 in case sendStart env of
                                      Some err \<Rightarrow>
                                        failRun (''Could not communicate with content script: '' @ err)
                                          tabId w6
                                    | None \<Rightarrow> w6)))))"
  by (simp add: runBooking_def runBookingBegin_def runBookingOpened_def runBookingLoaded_def
        runBookingSend_def Let_def split: sum.splits option.splits)

lemma getState_addLog:
  "getState (addLog lvl text w) =
     (getState w)\<lparr>log := log (getState w) @ [\<lparr>time = toTimeString8 (shd (clock w)), level = lvl, msg = text\<rparr>]\<rparr>"
  by (simp add: addLog_def getState_def Let_def)

lemma getState_setState: "getState (setState patch w) = patch (getState w)"
  by (simp add: setState_def getState_def Let_def)

lemma getState_closeTab: "getState (closeTab t w) = getState w"
  by (simp add: closeTab_def getState_def)

lemma getState_releaseTab: "getState (releaseTab w) = getState w"
  by (simp add: releaseTab_def closeTab_def getState_def split: option.splits)

lemma getState_persistLastRunDate: "getState (persistLastRunDate w) = getState w"
  by (simp add: persistLastRunDate_def getTodayString_def getState_def)

lemma getState_showBookingNotification: "getState (showBookingNotification st tot e w) = getState w"
  by (simp add: showBookingNotification_def getState_def Let_def)

lemma getState_scheduleNextAlarm: "getState (scheduleNextAlarm w) = getState w"
  by (simp add: scheduleNextAlarm_def getState_def Let_def)

lemma getState_failRun:
  "getState (failRun text t w) =
     (getState w)\<lparr>status := Error,
        log := log (getState w) @ [\<lparr>time = toTimeString8 (shd (clock w)), level = ''error'', msg = text\<rparr>]\<rparr>"
  by (simp add: failRun_def closeTab_def addLog_def setState_def getState_def Let_def)

lemma getState_fields [simp]:
  "getState (w\<lparr>activeTabId := a\<rparr>) = getState w"
  "getState (w\<lparr>pendingSelectedDays := p\<rparr>) = getState w"
  "getState (w\<lparr>tabs := ts\<rparr>) = getState w"
  "getState (w\<lparr>clock := c\<rparr>) = getState w"
  "getState (w\<lparr>lastRunDate := l\<rparr>) = getState w"
  "getState (w\<lparr>notification := n\<rparr>) = getState w"
  "getState (w\<lparr>alarm := al\<rparr>) = getState w"
  "getState (w\<lparr>session := Some s\<rparr>) = s"
  by (simp_all add: getState_def)

lemmas getState_simps = getState_addLog getState_setState getState_closeTab getState_releaseTab
  getState_persistLastRunDate getState_showBookingNotification getState_scheduleNextAlarm
  getState_failRun

text \<open>The definitions that the kernel unfolds to run the orchestrator on an example.\<close>

lemmas world_eval = runningWorld_def freshWorld_def okEnv_def runBooking_unfold addLog_def setState_def
  getState_def defaultState_def closeTab_def failRun_def checkLoadedUrl_def Let_def

lemma runningWorld_guard: "activeTabId runningWorld = Some 7"
  by (simp add: world_eval)

lemma runningWorld_tabs: "tabs runningWorld = {7}"
  by (simp add: world_eval)

lemma runningWorld_status: "status (getState runningWorld) = Running"
  by (simp add: world_eval)

section \<open>The orchestrator: the guard\<close>

text \<open>
  What the guard does when it is set. A call of \<open>runBooking\<close> while \<open>activeTabId\<close> is set
  leaves the stored run state as it was but for one warning appended to the log: status,
  counters and bookings are unchanged. The set of tabs, the guard, the last run date and
  the notification are unchanged, and the result is the same whatever the browser would
  have answered, so no tab is asked for.
\<close>

theorem guarded_start_is_noop:
  assumes "activeTabId w \<noteq> None"
  shows "getState (runBooking env selectedDays w) =
           (getState w)\<lparr>log := log (getState w) @
              [\<lparr>time = toTimeString8 (shd (clock w)), level = ''warn'',
                msg = ''Booking already in progress '' @ emdash @ '' ignoring duplicate request.''\<rparr>]\<rparr> \<and>
         tabs (runBooking env selectedDays w) = tabs w \<and>
         activeTabId (runBooking env selectedDays w) = activeTabId w \<and>
         lastRunDate (runBooking env selectedDays w) = lastRunDate w \<and>
         notification (runBooking env selectedDays w) = notification w \<and>
         runBooking env selectedDays w = runBooking env' selectedDays w"
  using assms by (simp add: runBooking_unfold Let_def getState_addLog) (simp add: addLog_def Let_def)

text \<open>A second start while the run of the example is in flight.\<close>

theorem guarded_start_is_noop_witness:
  "activeTabId runningWorld \<noteq> None \<and>
   status (getState (runBooking okEnv [1, 3] runningWorld)) = Running \<and>
   length (log (getState (runBooking okEnv [1, 3] runningWorld))) = Suc (length (log (getState runningWorld))) \<and>
   tabs (runBooking okEnv [1, 3] runningWorld) = {7} \<and>
   activeTabId (runBooking okEnv [1, 3] runningWorld) = Some 7"
proof -
  have h: "activeTabId runningWorld \<noteq> None" by (simp add: runningWorld_guard)
  from guarded_start_is_noop [OF h, of okEnv "[1, 3]" okEnv] h
  show ?thesis by (simp add: runningWorld_guard runningWorld_tabs runningWorld_status)
qed

lemmas phase_eval = awaitingTab_def awaitingLoad_def tab8Env_def runBookingBegin_def
  runBookingOpened_def runBookingLoaded_def runBookingSend_def

text \<open>
  Claim C1 says that a call of \<open>runBooking\<close> while a run is in flight, its status
  \<open>running\<close>, never changes the run state and never opens a second tab, and that nothing
  is queued or preempted. The guard is \<open>activeTabId\<close>, which the first call sets only after
  its wait for \<open>chrome.tabs.create\<close>, and the selection is stored before the guard is
  tested. Two runs of the code on that. While the first call waits for its tab the status
  is \<open>running\<close> and the guard is free: a second call passes the guard, resets the state
  and opens tab 8; the first call then opens tab 7 and takes the guard, and two tabs are
  open. While the first call waits for the load of its tab 7 the guard is set: a second
  call only logs the warning, but the command the first call then sends carries the
  selection of the second call, not its own.
\<close>

theorem second_start_during_the_waits:
  "fst (runBookingBegin [1, 2, 3, 4, 5] (freshWorld (sconst brisbane8am))) \<and>
   status (getState awaitingTab) = Running \<and> activeTabId awaitingTab = None \<and>
   tabs awaitingTab = {} \<and>
   tabs (runBooking tab8Env [6] awaitingTab) = {8} \<and>
   activeTabId (runBooking tab8Env [6] awaitingTab) = Some 8 \<and>
   length (log (getState awaitingTab)) = 1 \<and>
   length (log (getState (runBooking tab8Env [6] awaitingTab))) = 5 \<and>
   tabs (snd (runBookingOpened (Inr 7) (runBooking tab8Env [6] awaitingTab))) = {7, 8} \<and>
   activeTabId (snd (runBookingOpened (Inr 7) (runBooking tab8Env [6] awaitingTab))) = Some 7 \<and>
   status (getState awaitingLoad) = Running \<and> activeTabId awaitingLoad = Some 7 \<and>
   tabs (runBooking tab8Env [6] awaitingLoad) = {7} \<and>
   fst (runBookingSend None 7
          (snd (runBookingLoaded (Inr ''https://dashboard.envoy.com/schedule'') 7
                  (runBooking tab8Env [6] awaitingLoad)))) = START_BOOKING (Some [6]) \<and>
   fst (runBookingSend None 7
          (snd (runBookingLoaded (Inr ''https://dashboard.envoy.com/schedule'') 7
                  awaitingLoad))) = START_BOOKING (Some [1, 2, 3, 4, 5])"
  by (simp add: phase_eval world_eval insert_commute)

section \<open>The orchestrator: where the tab landed\<close>

lemma afterScheme_suffix: "afterScheme url = Some r \<Longrightarrow> \<exists>pre. url = pre @ r"
proof (induction url)
  case Nil
  then show ?case by simp
next
  case (Cons c cs)
  show ?case
  proof (cases "startsWith (c # cs) ''://''")
    case True
    with Cons.prems have "Some (drop 3 (c # cs)) = Some r"
      by (simp only: afterScheme.simps if_True)
    then have "r = drop 3 (c # cs)" by (simp only: option.inject)
    then have "c # cs = take 3 (c # cs) @ r" by (simp only: append_take_drop_id)
    then show ?thesis by blast
  next
    case False
    with Cons.prems have "afterScheme cs = Some r"
      by (simp only: afterScheme.simps if_False)
    with Cons.IH obtain pre where "cs = pre @ r" by blast
    then have "c # cs = (c # pre) @ r" by simp
    then show ?thesis by blast
  qed
qed

lemma onExpectedHost_contains:
  assumes "onExpectedHost url"
  shows "containsText url ''dashboard.envoy.com''"
proof -
  define P where "P = (\<lambda>c. c \<notin> set ''/?#'')"
  from assms obtain r where r: "afterScheme url = Some r"
    and h: "takeWhile P r = ''dashboard.envoy.com''"
    unfolding onExpectedHost_def hostOf_def P_def by (cases "afterScheme url") auto
  from afterScheme_suffix [OF r] obtain pre where u: "url = pre @ r" by blast
  have "r = takeWhile P r @ dropWhile P r"
    by (simp only: takeWhile_dropWhile_id)
  with h have "r = ''dashboard.envoy.com'' @ dropWhile P r" by (simp only:)
  with u have "url = pre @ ''dashboard.envoy.com'' @ dropWhile P r" by (simp only:)
  then show ?thesis unfolding containsText_def by blast
qed

text \<open>
  Claim C3, as stated: every address containing \<open>/login\<close>, \<open>/sign-in\<close> or \<open>/auth\<close> fails as
  redirected to login, and every address that does not belong to the expected host fails
  as redirected away. The host test comes first in \<open>runBooking\<close>, so a login address on
  another host fails as redirected away. And the host test looks for the host's name
  anywhere in the address, so an address on another host that mentions the name passes
  both tests.
\<close>

theorem redirect_counterexample:
  "containsText ''https://app.envoy.com/login'' ''/login'' \<and>
   checkLoadedUrl ''https://app.envoy.com/login'' = Some redirectedAway \<and>
   redirectedAway \<noteq> redirectedToLogin \<and>
   hostOf ''https://evil.example/?next=dashboard.envoy.com/schedule'' = ''evil.example'' \<and>
   \<not> onExpectedHost ''https://evil.example/?next=dashboard.envoy.com/schedule'' \<and>
   checkLoadedUrl ''https://evil.example/?next=dashboard.envoy.com/schedule'' = None"
  unfolding includesSub_iff [symmetric]
  by (simp add: checkLoadedUrl_def redirectedAway_def redirectedToLogin_def onExpectedHost_def hostOf_def)

text \<open>
  Claim C3, amended. The host test is applied before the login test. An address in which
  the name of the expected host does not occur is not on that host and fails as
  redirected away, also when it contains \<open>/login\<close>, \<open>/sign-in\<close> or \<open>/auth\<close>. An address on
  the expected host that contains one of the three fails as redirected to login. An
  address on the expected host that contains none of them passes. A failure ends the run
  that started: status \<open>error\<close>, the failure's message as the last log entry, the tab
  closed, the guard released. An address that passes, with the command delivered, leaves
  the run in flight with no error logged. (Nothing is said of an address on another host
  in which the name occurs.)
\<close>

theorem redirect_order:
  "(\<not> containsText url ''dashboard.envoy.com'' \<longrightarrow>
      \<not> onExpectedHost url \<and> checkLoadedUrl url = Some redirectedAway) \<and>
   (onExpectedHost url \<and>
    (containsText url ''/login'' \<or> containsText url ''/sign-in'' \<or> containsText url ''/auth'') \<longrightarrow>
      checkLoadedUrl url = Some redirectedToLogin) \<and>
   (onExpectedHost url \<and> \<not> containsText url ''/login'' \<and>
    \<not> containsText url ''/sign-in'' \<and> \<not> containsText url ''/auth'' \<longrightarrow>
      checkLoadedUrl url = None) \<and>
   (activeTabId w = None \<and> createTab env = Inr t \<and> loadTab env = Inr url \<and>
    checkLoadedUrl url = Some err \<longrightarrow>
      status (getState (runBooking env selectedDays w)) = Error \<and>
      level (last (log (getState (runBooking env selectedDays w)))) = ''error'' \<and>
      msg (last (log (getState (runBooking env selectedDays w)))) = err \<and>
      t \<notin> tabs (runBooking env selectedDays w) \<and>
      activeTabId (runBooking env selectedDays w) = None) \<and>
   (activeTabId w = None \<and> createTab env = Inr t \<and> loadTab env = Inr url \<and>
    checkLoadedUrl url = None \<and> sendStart env = None \<longrightarrow>
      status (getState (runBooking env selectedDays w)) = Running \<and>
      list_all (\<lambda>e. level e = ''info'') (log (getState (runBooking env selectedDays w))) \<and>
      t \<in> tabs (runBooking env selectedDays w) \<and>
      activeTabId (runBooking env selectedDays w) = Some t)"
proof (intro conjI impI)
  assume "activeTabId w = None \<and> createTab env = Inr t \<and> loadTab env = Inr url \<and>
    checkLoadedUrl url = Some err"
  then have eq: "runBooking env selectedDays w =
      failRun err t (addLog ''info'' (''Page loaded. URL: '' @ url)
        (addLog ''info'' (''Waiting for page to load'' @ ellipsis)
        (addLog ''info'' (''Background tab created (id='' @ showNat t @ '').'')
          ((addLog ''info'' (''Opening Envoy schedule page in background tab'' @ ellipsis)
             (w\<lparr>pendingSelectedDays := selectedDays,
                 session := Some (defaultState\<lparr>status := Running, log := []\<rparr>)\<rparr>))
            \<lparr>tabs := insert t (tabs (addLog ''info'' (''Opening Envoy schedule page in background tab'' @ ellipsis)
                (w\<lparr>pendingSelectedDays := selectedDays,
                 session := Some (defaultState\<lparr>status := Running, log := []\<rparr>)\<rparr>))),
              activeTabId := Some t\<rparr>))))"
    by (simp add: runBooking_unfold Let_def)
  show "status (getState (runBooking env selectedDays w)) = Error"
    and "level (last (log (getState (runBooking env selectedDays w)))) = ''error''"
    and "msg (last (log (getState (runBooking env selectedDays w)))) = err"
    and "t \<notin> tabs (runBooking env selectedDays w)"
    and "activeTabId (runBooking env selectedDays w) = None"
    unfolding eq by (simp_all add: getState_failRun) (simp_all add: failRun_def closeTab_def)
next
  assume "activeTabId w = None \<and> createTab env = Inr t \<and> loadTab env = Inr url \<and>
    checkLoadedUrl url = None \<and> sendStart env = None"
  then show "status (getState (runBooking env selectedDays w)) = Running"
    and "list_all (\<lambda>e. level e = ''info'') (log (getState (runBooking env selectedDays w)))"
    and "t \<in> tabs (runBooking env selectedDays w)"
    and "activeTabId (runBooking env selectedDays w) = Some t"
    by (simp_all add: runBooking_unfold Let_def getState_addLog defaultState_def)
       (simp_all add: addLog_def Let_def)
next
  assume "\<not> containsText url ''dashboard.envoy.com''"
  then show "\<not> onExpectedHost url" using onExpectedHost_contains by blast
next
  assume "\<not> containsText url ''dashboard.envoy.com''"
  then show "checkLoadedUrl url = Some redirectedAway"
    by (simp add: checkLoadedUrl_def includesSub_iff)
next
  assume "onExpectedHost url \<and>
    (containsText url ''/login'' \<or> containsText url ''/sign-in'' \<or> containsText url ''/auth'')"
  then show "checkLoadedUrl url = Some redirectedToLogin"
    using onExpectedHost_contains [of url] by (auto simp: checkLoadedUrl_def includesSub_iff)
next
  assume "onExpectedHost url \<and> \<not> containsText url ''/login'' \<and>
    \<not> containsText url ''/sign-in'' \<and> \<not> containsText url ''/auth''"
  then show "checkLoadedUrl url = None"
    using onExpectedHost_contains [of url] by (auto simp: checkLoadedUrl_def includesSub_iff)
qed

text \<open>A login address on another host, the login page of the expected host, and the schedule page.\<close>

theorem redirect_order_witness:
  "\<not> onExpectedHost ''https://example.org/login'' \<and>
   checkLoadedUrl ''https://example.org/login'' = Some redirectedAway \<and>
   checkLoadedUrl ''https://dashboard.envoy.com/login'' = Some redirectedToLogin \<and>
   checkLoadedUrl ''https://dashboard.envoy.com/schedule'' = None \<and>
   status (getState (runBooking loginEnv [1] (freshWorld (sconst brisbane8am)))) = Error \<and>
   msg (last (log (getState (runBooking loginEnv [1] (freshWorld (sconst brisbane8am)))))) = redirectedToLogin \<and>
   7 \<notin> tabs (runBooking loginEnv [1] (freshWorld (sconst brisbane8am))) \<and>
   activeTabId (runBooking loginEnv [1] (freshWorld (sconst brisbane8am))) = None \<and>
   status (getState (runBooking okEnv [1] (freshWorld (sconst brisbane8am)))) = Running \<and>
   activeTabId (runBooking okEnv [1] (freshWorld (sconst brisbane8am))) = Some 7"
proof -
  have c: "\<not> containsText ''https://example.org/login'' ''dashboard.envoy.com''"
    "containsText ''https://dashboard.envoy.com/login'' ''/login''"
    "\<not> containsText ''https://dashboard.envoy.com/schedule'' ''/login''"
    "\<not> containsText ''https://dashboard.envoy.com/schedule'' ''/sign-in''"
    "\<not> containsText ''https://dashboard.envoy.com/schedule'' ''/auth''"
    unfolding includesSub_iff [symmetric] by simp_all
  have h: "onExpectedHost ''https://dashboard.envoy.com/login''"
    "onExpectedHost ''https://dashboard.envoy.com/schedule''"
    by (simp_all add: onExpectedHost_def hostOf_def)
  have e: "activeTabId (freshWorld (sconst brisbane8am)) = None"
    "createTab loginEnv = Inr 7" "loadTab loginEnv = Inr ''https://dashboard.envoy.com/login''"
    "createTab okEnv = Inr 7" "loadTab okEnv = Inr ''https://dashboard.envoy.com/schedule''"
    "sendStart okEnv = None"
    by (simp_all add: freshWorld_def loginEnv_def okEnv_def)
  note r1 = redirect_order [of "''https://example.org/login''"]
  note r2 = redirect_order [of "''https://dashboard.envoy.com/login''"
      "freshWorld (sconst brisbane8am)" loginEnv 7 redirectedToLogin "[1]"]
  note r3 = redirect_order [of "''https://dashboard.envoy.com/schedule''"
      "freshWorld (sconst brisbane8am)" okEnv 7 _ "[1]"]
  from r1 c have 1: "\<not> onExpectedHost ''https://example.org/login'' \<and>
      checkLoadedUrl ''https://example.org/login'' = Some redirectedAway" by blast
  from r2 c h have 2: "checkLoadedUrl ''https://dashboard.envoy.com/login'' = Some redirectedToLogin" by blast
  from r3 c h have 3: "checkLoadedUrl ''https://dashboard.envoy.com/schedule'' = None" by blast
  from r2 e 2 have 4: "status (getState (runBooking loginEnv [1] (freshWorld (sconst brisbane8am)))) = Error \<and>
   msg (last (log (getState (runBooking loginEnv [1] (freshWorld (sconst brisbane8am)))))) = redirectedToLogin \<and>
   7 \<notin> tabs (runBooking loginEnv [1] (freshWorld (sconst brisbane8am))) \<and>
   activeTabId (runBooking loginEnv [1] (freshWorld (sconst brisbane8am))) = None" by blast
  from r3 e 3 have 5: "status (getState (runBooking okEnv [1] (freshWorld (sconst brisbane8am)))) = Running \<and>
   activeTabId (runBooking okEnv [1] (freshWorld (sconst brisbane8am))) = Some 7" by blast
  from 1 2 3 4 5 show ?thesis by blast
qed

section \<open>The orchestrator: terminal events\<close>

text \<open>
  What each terminal event does while a run is in flight with tab \<open>t\<close>. It sets its status
  (\<open>done\<close> for done and none, \<open>error\<close> for error), with the counters of done and none; the tab
  is closed and the guard released; \<open>lastRunDate\<close> becomes the day that \<open>getTodayString\<close>
  reads from the clock (the reading after the one the log entry took), which is the UTC
  day; and the notification carries the success count, the zero-result wording (also for a
  done event with total zero) or the failure message.
\<close>

theorem terminal_events:
  assumes "activeTabId w = Some t"
  shows "status (getState (snd (onMessage env (BOOKING_DONE tot bks) w))) = Done \<and>
         current (getState (snd (onMessage env (BOOKING_DONE tot bks) w))) = tot \<and>
         total (getState (snd (onMessage env (BOOKING_DONE tot bks) w))) = tot \<and>
         bookings (getState (snd (onMessage env (BOOKING_DONE tot bks) w))) = bks \<and>
         t \<notin> tabs (snd (onMessage env (BOOKING_DONE tot bks) w)) \<and>
         activeTabId (snd (onMessage env (BOOKING_DONE tot bks) w)) = None \<and>
         lastRunDate (snd (onMessage env (BOOKING_DONE tot bks) w)) = Some (toISODate (shd (stl (clock w)))) \<and>
         notification (snd (onMessage env (BOOKING_DONE tot bks) w)) =
           Some (if tot = 0 then ''No desks found to book today.''
                 else ''Done '' @ emdash @ '' scheduled '' @ showInt tot @ '' desk(s).'') \<and>
         status (getState (snd (onMessage env (BOOKING_NONE text) w))) = Done \<and>
         current (getState (snd (onMessage env (BOOKING_NONE text) w))) = 0 \<and>
         total (getState (snd (onMessage env (BOOKING_NONE text) w))) = 0 \<and>
         t \<notin> tabs (snd (onMessage env (BOOKING_NONE text) w)) \<and>
         activeTabId (snd (onMessage env (BOOKING_NONE text) w)) = None \<and>
         lastRunDate (snd (onMessage env (BOOKING_NONE text) w)) = Some (toISODate (shd (stl (clock w)))) \<and>
         notification (snd (onMessage env (BOOKING_NONE text) w)) = Some ''No desks found to book today.'' \<and>
         status (getState (snd (onMessage env (BOOKING_ERROR text) w))) = Error \<and>
         t \<notin> tabs (snd (onMessage env (BOOKING_ERROR text) w)) \<and>
         activeTabId (snd (onMessage env (BOOKING_ERROR text) w)) = None \<and>
         lastRunDate (snd (onMessage env (BOOKING_ERROR text) w)) = Some (toISODate (shd (stl (clock w)))) \<and>
         notification (snd (onMessage env (BOOKING_ERROR text) w)) =
           Some (''Booking failed: '' @ (if text = [] then defaultError else text))"
  using assms
  by (simp add: onMessage_def showBookingNotification_def persistLastRunDate_def getTodayString_def
        releaseTab_def closeTab_def addLog_def setState_def getState_def orElse_def defaultError_def
        Let_def split: option.splits)


text \<open>
  Claim C7 says that every terminal event sets the terminal status, closes the tab, clears
  the guard, stores today's date as \<open>lastRunDate\<close> and fires the matching notification. The
  run of the example receives each terminal event on 2 March 2026 at 08:00, ten hours east
  of UTC. Status, tab, guard and notification are as the claim says; the date stored is
  day 20513 since the epoch, 1 March, the UTC day, while today is day 20514 there. It is
  the defect of claim C9: \<open>getTodayString\<close> takes its date from \<open>toISOString\<close>.
\<close>

theorem terminal_event_stores_utc_day:
  "activeTabId runningWorld = Some 7 \<and>
   shd (stl (clock runningWorld)) = brisbane8am \<and>
   getHours brisbane8am = 8 \<and> localDate brisbane8am = 20514 \<and> toISODate brisbane8am = 20513 \<and>
   status (getState (snd (onMessage okEnv (BOOKING_DONE 2 []) runningWorld))) = Done \<and>
   current (getState (snd (onMessage okEnv (BOOKING_DONE 2 []) runningWorld))) = 2 \<and>
   total (getState (snd (onMessage okEnv (BOOKING_DONE 2 []) runningWorld))) = 2 \<and>
   7 \<notin> tabs (snd (onMessage okEnv (BOOKING_DONE 2 []) runningWorld)) \<and>
   activeTabId (snd (onMessage okEnv (BOOKING_DONE 2 []) runningWorld)) = None \<and>
   notification (snd (onMessage okEnv (BOOKING_DONE 2 []) runningWorld)) =
     Some (''Done '' @ emdash @ '' scheduled 2 desk(s).'') \<and>
   lastRunDate (snd (onMessage okEnv (BOOKING_DONE 2 []) runningWorld)) = Some 20513 \<and>
   status (getState (snd (onMessage okEnv (BOOKING_NONE []) runningWorld))) = Done \<and>
   activeTabId (snd (onMessage okEnv (BOOKING_NONE []) runningWorld)) = None \<and>
   notification (snd (onMessage okEnv (BOOKING_NONE []) runningWorld)) =
     Some ''No desks found to book today.'' \<and>
   lastRunDate (snd (onMessage okEnv (BOOKING_NONE []) runningWorld)) = Some 20513 \<and>
   status (getState (snd (onMessage okEnv (BOOKING_ERROR ''boom'') runningWorld))) = Error \<and>
   activeTabId (snd (onMessage okEnv (BOOKING_ERROR ''boom'') runningWorld)) = None \<and>
   notification (snd (onMessage okEnv (BOOKING_ERROR ''boom'') runningWorld)) =
     Some ''Booking failed: boom'' \<and>
   lastRunDate (snd (onMessage okEnv (BOOKING_ERROR ''boom'') runningWorld)) = Some 20513"
proof -
  have h: "activeTabId runningWorld = Some 7" by (rule runningWorld_guard)
  have c: "shd (stl (clock runningWorld)) = brisbane8am"
    by (simp add: world_eval)
  have d: "getHours brisbane8am = 8" "localDate brisbane8am = 20514" "toISODate brisbane8am = 20513"
    by (simp_all add: getHours_def localDate_def localMs_def toISODate_def brisbane8am_def)
  from terminal_events [OF h, of okEnv 2 "[]" "[]"] terminal_events [OF h, of okEnv 2 "[]" "''boom''"] h c d
  show ?thesis by (simp add: showInt_def showNat.simps digitChars_def)
qed

section \<open>The orchestrator: an event delivered twice\<close>

text \<open>
  Claim C8, as stated: handling the same event twice leaves the run state as handling it
  once does. Every handler but the state query appends a log entry each time it runs, so
  a log event handled twice leaves two entries where one delivery leaves one.
\<close>

theorem duplicate_log_counterexample:
  "getState (snd (onMessage okEnv (LOG ''info'' ''Scanning'')
      (snd (onMessage okEnv (LOG ''info'' ''Scanning'') (freshWorld (sconst brisbane8am)))))) \<noteq>
   getState (snd (onMessage okEnv (LOG ''info'' ''Scanning'') (freshWorld (sconst brisbane8am))))"
proof
  assume "getState (snd (onMessage okEnv (LOG ''info'' ''Scanning'')
      (snd (onMessage okEnv (LOG ''info'' ''Scanning'') (freshWorld (sconst brisbane8am)))))) =
   getState (snd (onMessage okEnv (LOG ''info'' ''Scanning'') (freshWorld (sconst brisbane8am))))"
  then have "length (log (getState (snd (onMessage okEnv (LOG ''info'' ''Scanning'')
      (snd (onMessage okEnv (LOG ''info'' ''Scanning'') (freshWorld (sconst brisbane8am)))))))) =
   length (log (getState (snd (onMessage okEnv (LOG ''info'' ''Scanning'') (freshWorld (sconst brisbane8am))))))"
    by simp
  then show False
    by (simp add: onMessage_def getState_simps)
qed

text \<open>
  Claim C8, amended. For every inbound event of the page agent and for the state query,
  the second handling of the same event leaves status, counters and bookings as the first
  left them. The state query changes nothing at all. Every other event adds one more log
  entry on its second handling, with the level and the message of the entry the first
  handling added.
\<close>

theorem duplicate_delivery:
  assumes "\<forall>sel. m \<noteq> START_BOOKING sel"
  shows "status (getState (snd (onMessage env' m (snd (onMessage env m w))))) =
           status (getState (snd (onMessage env m w))) \<and>
         current (getState (snd (onMessage env' m (snd (onMessage env m w))))) =
           current (getState (snd (onMessage env m w))) \<and>
         total (getState (snd (onMessage env' m (snd (onMessage env m w))))) =
           total (getState (snd (onMessage env m w))) \<and>
         bookings (getState (snd (onMessage env' m (snd (onMessage env m w))))) =
           bookings (getState (snd (onMessage env m w))) \<and>
         (m = GET_STATE \<longrightarrow>
            getState (snd (onMessage env' m (snd (onMessage env m w)))) = getState w) \<and>
         (m \<noteq> GET_STATE \<longrightarrow>
            (\<exists>e. log (getState (snd (onMessage env' m (snd (onMessage env m w))))) =
                   log (getState (snd (onMessage env m w))) @ [e] \<and>
                 level e = level (last (log (getState (snd (onMessage env m w))))) \<and>
                 msg e = msg (last (log (getState (snd (onMessage env m w)))))))"
  using assms
  by (cases m) (simp_all add: onMessage_def getState_simps)

text \<open>A done event handled twice by the run of the example.\<close>

theorem duplicate_delivery_witness:
  "status (getState (snd (onMessage okEnv (BOOKING_DONE 2 [])
      (snd (onMessage okEnv (BOOKING_DONE 2 []) runningWorld))))) = Done \<and>
   current (getState (snd (onMessage okEnv (BOOKING_DONE 2 [])
      (snd (onMessage okEnv (BOOKING_DONE 2 []) runningWorld))))) = 2 \<and>
   length (log (getState (snd (onMessage okEnv (BOOKING_DONE 2 [])
      (snd (onMessage okEnv (BOOKING_DONE 2 []) runningWorld)))))) =
     Suc (length (log (getState (snd (onMessage okEnv (BOOKING_DONE 2 []) runningWorld)))))"
proof -
  have h: "\<forall>sel. BOOKING_DONE 2 [] \<noteq> START_BOOKING sel" by simp
  have s: "status (getState (snd (onMessage okEnv (BOOKING_DONE 2 []) runningWorld))) = Done"
    "current (getState (snd (onMessage okEnv (BOOKING_DONE 2 []) runningWorld))) = 2"
    by (simp_all add: onMessage_def getState_simps)
  from duplicate_delivery [OF h, of okEnv okEnv runningWorld] s
  show ?thesis by auto
qed

section \<open>The orchestrator: the daily auto-run\<close>

lemmas date_eval = localDate_def localMs_def toISODate_def getHours_def pacificMonday5pm_def
  pacificTuesday8am_def brisbane11am_def brisbane8am_def

lemmas lifecycle_eval = ranAt_def onAlarm_def onStartup_def scheduleNextAlarm_def storedDays_def
  onMessage_def showBookingNotification_def persistLastRunDate_def getTodayString_def releaseTab_def

text \<open>
  Claim C9 says that the auto-run compares the local calendar date of the last run with
  the local date of today. \<open>getTodayString\<close> takes its date from \<open>toISOString\<close>, which is the
  UTC date, while the hour test and the alarm's instant are local. Two runs of the code on
  that difference. Eight hours west of UTC a run completes on Monday at 17:00 and stores
  Tuesday's UTC date; on Tuesday at 08:00 local the alarm and the startup both find the
  stored date equal to today's and start nothing: no tab, status still \<open>done\<close>. Ten hours
  east of UTC a run completes on Monday at 08:00 and stores Sunday's UTC date; at 11:00
  the same Monday the startup (and the alarm) starts a second run.
\<close>

theorem auto_run_compares_utc_dates:
  "localDate pacificMonday5pm = 20514 \<and> localDate pacificTuesday8am = 20515 \<and>
   getHours pacificTuesday8am = 8 \<and>
   toISODate pacificMonday5pm = 20515 \<and> toISODate pacificTuesday8am = 20515 \<and>
   lastRunDate (ranAt pacificMonday5pm pacificTuesday8am) = Some 20515 \<and>
   shd (clock (ranAt pacificMonday5pm pacificTuesday8am)) = pacificTuesday8am \<and>
   onAlarm okEnv ''dailyBooking'' (ranAt pacificMonday5pm pacificTuesday8am) =
     (ranAt pacificMonday5pm pacificTuesday8am)\<lparr>clock := sconst pacificTuesday8am\<rparr> \<and>
   tabs (onStartup okEnv (ranAt pacificMonday5pm pacificTuesday8am)) = {} \<and>
   status (getState (onStartup okEnv (ranAt pacificMonday5pm pacificTuesday8am))) = Done \<and>
   localDate brisbane8am = 20514 \<and> localDate brisbane11am = 20514 \<and>
   getHours brisbane11am = 11 \<and>
   toISODate brisbane8am = 20513 \<and> toISODate brisbane11am = 20514 \<and>
   lastRunDate (ranAt brisbane8am brisbane11am) = Some 20513 \<and>
   activeTabId (onStartup okEnv (ranAt brisbane8am brisbane11am)) = Some 7 \<and>
   status (getState (onStartup okEnv (ranAt brisbane8am brisbane11am))) = Running \<and>
   activeTabId (onAlarm okEnv ''dailyBooking'' (ranAt brisbane8am brisbane11am)) = Some 7"
  by (simp add: date_eval lifecycle_eval world_eval)

section \<open>The orchestrator: the counters\<close>

lemma agentEmits_progress:
  assumes "agentEmits (BOOKING_PROGRESS c t)"
  shows "0 < c \<and> c \<le> t"
proof -
  from assms obtain env pg sel d where
    mem: "(BOOKING_PROGRESS c t, d) \<in> set (snd (contentListener env pg (START_BOOKING sel) []))"
    unfolding agentEmits_def by blast
  define Q where "Q = (\<lambda>m. \<forall>c t. m = BOOKING_PROGRESS c t \<longrightarrow> 0 < c \<and> c \<le> t)"
  have run: "agentSpec (runBulkBooking env pg days) (\<lambda>r. True) Q" for days
    by (rule runBulkBooking_spec) (simp_all add: Q_def logsAllowed_def)
  have "agentSpec (contentListener env pg (START_BOOKING sel)) (\<lambda>r. \<exists>x. r = Inr x) Q"
    by (rule contentListener_spec [OF _ _ run]) (simp_all add: Q_def logsAllowed_def)
  from agentSpec_sent [OF this mem] show ?thesis by (simp add: Q_def)
qed

lemma countersOk_log [simp]: "countersOk (s\<lparr>log := l\<rparr>) = countersOk s"
  by (simp add: countersOk_def)

lemma countersOk_runBooking:
  "countersOk (getState w) \<Longrightarrow> countersOk (getState (runBooking env sel w))"
  by (simp add: runBooking_unfold Let_def getState_simps defaultState_def countersOk_def
        split: sum.splits option.splits)

lemma countersOk_onMessage:
  assumes "countersOk (getState w)" and "\<And>c t. m = BOOKING_PROGRESS c t \<Longrightarrow> c \<le> t"
  shows "countersOk (getState (snd (onMessage env m w)))"
proof (cases m)
  case (START_BOOKING sel)
  with assms(1) show ?thesis by (simp add: onMessage_def countersOk_runBooking)
next
  case (BOOKING_PROGRESS c t)
  with assms(2) have "c \<le> t" by simp
  with BOOKING_PROGRESS show ?thesis
    by (simp add: onMessage_def getState_simps countersOk_def)
qed (use assms(1) in \<open>simp_all add: onMessage_def getState_simps\<close>, simp_all add: countersOk_def)

lemma countersOk_onStartup:
  "countersOk (getState w) \<Longrightarrow> countersOk (getState (onStartup env w))"
  by (simp add: onStartup_def Let_def getTodayString_def getState_simps countersOk_runBooking)

lemma countersOk_onAlarm:
  "countersOk (getState w) \<Longrightarrow> countersOk (getState (onAlarm env name w))"
  by (simp add: onAlarm_def Let_def getTodayString_def getState_simps countersOk_runBooking)

text \<open>
  Claim C2. In every world the service worker reaches by handling messages that the page
  agent emits, commands and queries of the popup and lifecycle events, the stored run
  state has \<open>current\<close> at most \<open>total\<close> whenever \<open>total\<close> is not zero, and \<open>current\<close> equal to
  \<open>total\<close> whenever the status is \<open>done\<close>.
\<close>

theorem counters_invariant:
  assumes "reachable w"
  shows "(total (getState w) \<noteq> 0 \<longrightarrow> current (getState w) \<le> total (getState w)) \<and>
         (status (getState w) = Done \<longrightarrow> current (getState w) = total (getState w))"
proof -
  from assms have "countersOk (getState w)"
  proof (induction rule: reachable.induct)
    case start
    show ?case by (simp add: getState_def defaultState_def countersOk_def)
  next
    case (event w m env)
    show ?case
      by (rule countersOk_onMessage [OF event.IH]) (use event.hyps agentEmits_progress in blast)
  next
    case (command w env sel)
    then show ?case by (simp add: onMessage_def countersOk_runBooking)
  next
    case (query w env)
    then show ?case by (simp add: onMessage_def)
  next
    case (installed w)
    then show ?case by (simp add: onInstalled_def getState_simps)
  next
    case (startup w env)
    show ?case by (rule countersOk_onStartup [OF startup.IH])
  next
    case (alarm w env name)
    show ?case by (rule countersOk_onAlarm [OF alarm.IH])
  next
    case (cycled w)
    then show ?case by simp
  qed
  then show ?thesis by (simp add: countersOk_def)
qed

text \<open>
  The run of the example, after the progress event of the second click of three, which
  the page agent emits on the example page.
\<close>

theorem counters_invariant_witness:
  "reachable progressWorld \<and> total (getState progressWorld) = 3 \<and>
   current (getState progressWorld) \<le> total (getState progressWorld)"
proof -
  have "(BOOKING_PROGRESS 2 3, True) \<in>
      set (snd (contentListener quietEnv weekPage (START_BOOKING (Some [1, 2, 3])) []))"
    by (simp add: agent_eval)
  then have emits: "agentEmits (BOOKING_PROGRESS 2 3)"
    unfolding agentEmits_def by blast
  have "reachable (freshWorld (sconst brisbane8am))"
    unfolding freshWorld_def by (rule reachable.start)
  then have "reachable (snd (onMessage okEnv (START_BOOKING (Some [1, 2, 3, 4, 5]))
      (freshWorld (sconst brisbane8am))))"
    by (rule reachable.command)
  then have "reachable runningWorld"
    by (simp add: onMessage_def runningWorld_def)
  then have r: "reachable progressWorld"
    unfolding progressWorld_def using emits by (rule reachable.event)
  have t: "total (getState progressWorld) = 3"
    by (simp add: progressWorld_def onMessage_def getState_simps)
  from counters_invariant [OF r] r t show ?thesis by simp
qed

end
